theory Spec2Isabelle
  imports Main "HOL-Library.Log_Nat" "HOL-Library.Multiset"
begin

section \<open>JavaScript numbers\<close>

text \<open>
  Every \<^verbatim>\<open>number\<close> of the source is an IEEE 754 binary64 value. A number is modelled
  as \<open>NaN\<close>, one of the two infinities, or a finite value given by the rational it
  denotes. The two zeros are one value \<open>Fin 0\<close>: the source never divides by a
  computed zero and never uses \<^verbatim>\<open>Object.is\<close>, the only places where they differ.
\<close>

datatype jsnum = NaN | PInf | NInf | Fin rat

text \<open>The exponent \<open>k\<close> of a positive rational: \<open>2 ^ k \<le> x < 2 ^ (k + 1)\<close>.\<close>

definition ilog2 :: "rat \<Rightarrow> int" where
  "ilog2 x =
     (let (p, q) = quotient_of x; d = bitlen p - bitlen q
      in if 2 powi d \<le> x then d else d - 1)"

text \<open>Rounding a non-negative rational to the nearest integer, ties to the even one.\<close>

definition round_half_even :: "rat \<Rightarrow> int" where
  "round_half_even y =
     (let f = \<lfloor>y\<rfloor>; r = y - of_int f
      in if r < 1 / 2 then f
         else if 1 / 2 < r then f + 1
         else if even f then f else f + 1)"

text \<open>
  Rounding an exact result to binary64 (round to nearest, ties to even): 53 bits of
  significand, least exponent \<open>-1074\<close>, overflow to an infinity from \<open>2 ^ 1024\<close> on.
\<close>

definition round_double :: "rat \<Rightarrow> jsnum" where
  "round_double x =
     (if x = 0 then Fin 0
      else let a = \<bar>x\<bar>;
               e = max (ilog2 a - 52) (- 1074);
               m = round_half_even (a / 2 powi e);
               v = of_int m * 2 powi e
           in if 2 powi 1024 \<le> v then (if 0 < x then PInf else NInf)
              else Fin (sgn x * v))"

text \<open>The arithmetic operators \<^verbatim>\<open>+\<close>, \<^verbatim>\<open>-\<close>, \<^verbatim>\<open>*\<close> and \<^verbatim>\<open>/\<close>.\<close>

fun js_neg :: "jsnum \<Rightarrow> jsnum" where
  "js_neg NaN = NaN"
| "js_neg PInf = NInf"
| "js_neg NInf = PInf"
| "js_neg (Fin x) = Fin (- x)"

fun js_add :: "jsnum \<Rightarrow> jsnum \<Rightarrow> jsnum" where
  "js_add NaN _ = NaN"
| "js_add _ NaN = NaN"
| "js_add PInf NInf = NaN"
| "js_add NInf PInf = NaN"
| "js_add PInf _ = PInf"
| "js_add _ PInf = PInf"
| "js_add NInf _ = NInf"
| "js_add _ NInf = NInf"
| "js_add (Fin x) (Fin y) = round_double (x + y)"

definition js_sub :: "jsnum \<Rightarrow> jsnum \<Rightarrow> jsnum" where
  "js_sub a b = js_add a (js_neg b)"

fun js_mul :: "jsnum \<Rightarrow> jsnum \<Rightarrow> jsnum" where
  "js_mul NaN _ = NaN"
| "js_mul _ NaN = NaN"
| "js_mul (Fin x) (Fin y) = round_double (x * y)"
| "js_mul (Fin x) PInf = (if x = 0 then NaN else if 0 < x then PInf else NInf)"
| "js_mul (Fin x) NInf = (if x = 0 then NaN else if 0 < x then NInf else PInf)"
| "js_mul PInf (Fin y) = (if y = 0 then NaN else if 0 < y then PInf else NInf)"
| "js_mul NInf (Fin y) = (if y = 0 then NaN else if 0 < y then NInf else PInf)"
| "js_mul PInf PInf = PInf"
| "js_mul PInf NInf = NInf"
| "js_mul NInf PInf = NInf"
| "js_mul NInf NInf = PInf"

text \<open>Division; a zero divisor is taken as \<open>+0\<close>.\<close>

fun js_div :: "jsnum \<Rightarrow> jsnum \<Rightarrow> jsnum" where
  "js_div NaN _ = NaN"
| "js_div _ NaN = NaN"
| "js_div (Fin x) (Fin y) =
     (if y = 0 then (if x = 0 then NaN else if 0 < x then PInf else NInf)
      else round_double (x / y))"
| "js_div (Fin x) _ = Fin 0"
| "js_div PInf (Fin y) = (if 0 \<le> y then PInf else NInf)"
| "js_div NInf (Fin y) = (if 0 \<le> y then NInf else PInf)"
| "js_div _ _ = NaN"

text \<open>The comparisons \<^verbatim>\<open><\<close> and \<^verbatim>\<open>></\<close>: false as soon as one side is \<open>NaN\<close>.\<close>

fun js_lt :: "jsnum \<Rightarrow> jsnum \<Rightarrow> bool" where
  "js_lt NaN _ = False"
| "js_lt _ NaN = False"
| "js_lt PInf _ = False"
| "js_lt _ PInf = True"
| "js_lt _ NInf = False"
| "js_lt NInf _ = True"
| "js_lt (Fin x) (Fin y) = (x < y)"

definition js_gt :: "jsnum \<Rightarrow> jsnum \<Rightarrow> bool" where
  "js_gt a b = js_lt b a"

text \<open>\<^verbatim>\<open>Math.min\<close> of two numbers: \<open>NaN\<close> if either is, the smaller one otherwise.\<close>

definition Math_min :: "jsnum \<Rightarrow> jsnum \<Rightarrow> jsnum" where
  "Math_min a b = (if a = NaN \<or> b = NaN then NaN else if js_lt b a then b else a)"

text \<open>
  A property read that may find nothing: \<open>None\<close> is \<^verbatim>\<open>undefined\<close>. \<open>ToNumber\<close> is the
  coercion the arithmetic operators and the global \<^verbatim>\<open>isNaN\<close> apply; \<open>falsy\<close> is the
  operand test of \<^verbatim>\<open>!\<close>.
\<close>

fun ToNumber :: "jsnum option \<Rightarrow> jsnum" where
  "ToNumber None = NaN"
| "ToNumber (Some n) = n"

definition isNaN :: "jsnum option \<Rightarrow> bool" where
  "isNaN v = (ToNumber v = NaN)"

fun falsy :: "jsnum option \<Rightarrow> bool" where
  "falsy None = True"
| "falsy (Some n) = (n = NaN \<or> n = Fin 0)"

text \<open>
  A decimal literal of the source denotes the double nearest to it. The integer
  literals of the source (\<open>0\<close>, \<open>1\<close>, \<open>99\<close>, \<open>100\<close>, ...) are doubles themselves and
  are written \<open>Fin 0\<close>, \<open>Fin 1\<close>, \<open>Fin 99\<close>, \<open>Fin 100\<close>.
\<close>

definition literal :: "rat \<Rightarrow> jsnum" where
  "literal x = round_double x"


section \<open>Strings\<close>

text \<open>
  A string is its sequence of code units, and \<^verbatim>\<open>toLowerCase\<close> maps the letters
  \<^verbatim>\<open>A\<close> to \<^verbatim>\<open>Z\<close> to \<^verbatim>\<open>a\<close> to \<^verbatim>\<open>z\<close> and keeps every other unit.
  \<^verbatim>\<open>includes\<close> tests for a contiguous occurrence, scanning from the left.
\<close>

definition lower_char :: "char \<Rightarrow> char" where
  "lower_char c =
     (let n = (of_char c :: nat) in if 65 \<le> n \<and> n \<le> 90 then char_of (n + 32) else c)"

definition toLowerCase :: "string \<Rightarrow> string" where
  "toLowerCase s = map lower_char s"

fun starts_with :: "string \<Rightarrow> string \<Rightarrow> bool" where
  "starts_with _ [] = True"
| "starts_with [] (_ # _) = False"
| "starts_with (c # cs) (d # ds) = (c = d \<and> starts_with cs ds)"

fun includes_str :: "string \<Rightarrow> string \<Rightarrow> bool" where
  "includes_str [] needle = (needle = [])"
| "includes_str (c # cs) needle = (starts_with (c # cs) needle \<or> includes_str cs needle)"

section \<open>The cart store\<close>

record CartItem =
  id_c :: string
  name_c :: string
  description_c :: string
  image_c :: string
  quantity :: jsnum
  price :: "jsnum option"

text \<open>
  \<open>price\<close> is an optional read because the guard of \<^verbatim>\<open>addItem\<close> tests it with
  \<^verbatim>\<open>!newItem.price\<close>: \<open>None\<close> is an item object without the property.
\<close>

record PromoCode =
  code :: string
  discount :: jsnum

definition VALID_PROMO_CODES :: "PromoCode list" where
  "VALID_PROMO_CODES =
     [\<lparr>code = ''WELCOME10'', discount = Fin 10\<rparr>, \<lparr>code = ''SAVE20'', discount = Fin 20\<rparr>]"

text \<open>The object the persistence effect passes to \<^verbatim>\<open>JSON.stringify\<close>.\<close>

record envelope =
  env_items :: "CartItem list"
  env_expiryDate :: jsnum

text \<open>
  A JSON text is given by the value it denotes, which is what \<^verbatim>\<open>JSON.parse\<close> returns
  for it. An object is the list of its properties; a number of a JSON text is never
  \<open>NaN\<close>.
\<close>

datatype json =
  JNull
| JBool bool
| JNum jsnum
| JStr string
| JArr "json list"
| JObj "(string \<times> json) list"

text \<open>
  \<^verbatim>\<open>JSON.stringify\<close> of an envelope. A number that is \<open>NaN\<close> or infinite is written
  as \<^verbatim>\<open>null\<close> and a property that is \<^verbatim>\<open>undefined\<close> is left out. The properties of a
  line are listed in the order of the type \<^verbatim>\<open>CartItem\<close> (in the source their order is
  the one in which the caller of \<^verbatim>\<open>addItem\<close> built the object).
\<close>

fun number_json :: "jsnum \<Rightarrow> json" where
  "number_json (Fin x) = JNum (Fin x)"
| "number_json _ = JNull"

definition item_json :: "CartItem \<Rightarrow> json" where
  "item_json item =
     JObj ([(''id'', JStr (id_c item)), (''name'', JStr (name_c item)),
            (''description'', JStr (description_c item)), (''image'', JStr (image_c item)),
            (''quantity'', number_json (quantity item))]
           @ (case price item of None \<Rightarrow> [] | Some p \<Rightarrow> [(''price'', number_json p)]))"

definition JSON_stringify :: "envelope \<Rightarrow> json" where
  "JSON_stringify env =
     JObj [(''items'', JArr (map item_json (env_items env))),
           (''expiryDate'', number_json (env_expiryDate env))]"

text \<open>
  The state of \<^verbatim>\<open>CartProvider\<close>: its three \<^verbatim>\<open>useState\<close> cells and the
  \<^verbatim>\<open>localStorage\<close> entry under \<^verbatim>\<open>CART_STORAGE_KEY\<close> (\<open>None\<close>: no entry; otherwise the
  JSON text that was stored).
  \<open>items_ref\<close> is the identity of the array held in \<open>items\<close>: every \<^verbatim>\<open>setItems\<close>
  of the source stores a freshly built array, which React compares by identity with the
  previous one to decide whether the effect that depends on \<^verbatim>\<open>[items]\<close> runs.
  Console output and toast notifications are not part of the state.
\<close>

record CartState =
  items :: "CartItem list"
  items_ref :: nat
  activePromoCode :: "PromoCode option"
  isCartAnimating :: bool
  localStorage :: "json option"

definition setItems :: "(CartItem list \<Rightarrow> CartItem list) \<Rightarrow> CartState \<Rightarrow> CartState" where
  "setItems f s = s\<lparr>items := f (items s), items_ref := Suc (items_ref s)\<rparr>"

text \<open>
  The effect \<^verbatim>\<open>useEffect(..., [items])\<close>. Its argument is the time stamp the
  \<^verbatim>\<open>Date\<close> object gives for \<^verbatim>\<open>CART_EXPIRY_DAYS\<close> days after the clock's reading.
\<close>

definition persist_effect :: "jsnum \<Rightarrow> CartState \<Rightarrow> CartState" where
  "persist_effect expiry s =
     s\<lparr>localStorage :=
         Some (JSON_stringify \<lparr>env_items = items s, env_expiryDate = expiry\<rparr>)\<rparr>"

text \<open>After a render the effect runs iff the array in \<open>items\<close> is a new one.\<close>

definition run_effects :: "jsnum \<Rightarrow> CartState \<Rightarrow> CartState \<Rightarrow> CartState" where
  "run_effects expiry prev cur =
     (if items_ref cur \<noteq> items_ref prev then persist_effect expiry cur else cur)"

definition addItem :: "CartItem \<Rightarrow> CartState \<Rightarrow> CartState" where
  "addItem newItem s =
     (if falsy (price newItem) \<or> isNaN (price newItem) then s
      else (setItems (\<lambda>currentItems.
              case List.find (\<lambda>item. id_c item = id_c newItem) currentItems of
                Some existingItem \<Rightarrow>
                  map (\<lambda>item.
                        if id_c item = id_c newItem
                        then item\<lparr>quantity :=
                               Math_min (Fin 99) (js_add (quantity item) (quantity newItem))\<rparr>
                        else item) currentItems
              | None \<Rightarrow>
                  currentItems @ [newItem\<lparr>quantity := Math_min (Fin 99) (quantity newItem)\<rparr>])
            s)\<lparr>isCartAnimating := True\<rparr>)"

definition updateQuantity :: "string \<Rightarrow> jsnum \<Rightarrow> CartState \<Rightarrow> CartState" where
  "updateQuantity i q s =
     (if js_lt q (Fin 1) \<or> js_gt q (Fin 99) then s
      else setItems (map (\<lambda>item. if id_c item = i then item\<lparr>quantity := q\<rparr> else item)) s)"

definition removeItem :: "string \<Rightarrow> CartState \<Rightarrow> CartState" where
  "removeItem i s = setItems (filter (\<lambda>item. id_c item \<noteq> i)) s"

definition clearCart :: "CartState \<Rightarrow> CartState" where
  "clearCart s = (setItems (\<lambda>_. []) s)\<lparr>activePromoCode := None, localStorage := None\<rparr>"

definition applyPromoCode :: "string \<Rightarrow> CartState \<Rightarrow> CartState" where
  "applyPromoCode c s =
     (case List.find (\<lambda>promo. toLowerCase (code promo) = toLowerCase c) VALID_PROMO_CODES of
        Some promoCode \<Rightarrow> s\<lparr>activePromoCode := Some promoCode\<rparr>
      | None \<Rightarrow> s)"

definition removePromoCode :: "CartState \<Rightarrow> CartState" where
  "removePromoCode s = s\<lparr>activePromoCode := None\<rparr>"

text \<open>The timer \<^verbatim>\<open>addItem\<close> starts resets the animation flag when it fires.\<close>

definition animation_timeout :: "CartState \<Rightarrow> CartState" where
  "animation_timeout s = s\<lparr>isCartAnimating := False\<rparr>"

text \<open>The values computed in the body of the component at every render.\<close>

definition subtotal :: "CartState \<Rightarrow> jsnum" where
  "subtotal s =
     foldl (\<lambda>sum item.
              let itemTotal = js_mul (ToNumber (price item)) (quantity item)
              in if isNaN (Some itemTotal) then sum else js_add sum itemTotal)
       (Fin 0) (items s)"

definition total :: "CartState \<Rightarrow> jsnum" where
  "total s =
     (case activePromoCode s of
        Some promo \<Rightarrow> js_mul (subtotal s) (js_sub (Fin 1) (js_div (discount promo) (Fin 100)))
      | None \<Rightarrow> subtotal s)"

definition totalItems :: "CartState \<Rightarrow> jsnum" where
  "totalItems s = foldl (\<lambda>sum item. js_add sum (quantity item)) (Fin 0) (items s)"

text \<open>
  One event of the provider: a call of one of the six operations or the animation
  timer, followed by the render and its effects. The second argument of \<open>step\<close> is
  the expiry time stamp the effect would write.
\<close>

datatype event =
  AddItem CartItem
| UpdateQuantity string jsnum
| RemoveItem string
| ClearCart
| ApplyPromoCode string
| RemovePromoCode
| AnimationTimeout

fun handler :: "event \<Rightarrow> CartState \<Rightarrow> CartState" where
  "handler (AddItem newItem) = addItem newItem"
| "handler (UpdateQuantity i q) = updateQuantity i q"
| "handler (RemoveItem i) = removeItem i"
| "handler ClearCart = clearCart"
| "handler (ApplyPromoCode c) = applyPromoCode c"
| "handler RemovePromoCode = removePromoCode"
| "handler AnimationTimeout = animation_timeout"

definition step :: "event \<Rightarrow> jsnum \<Rightarrow> CartState \<Rightarrow> CartState" where
  "step ev expiry s = run_effects expiry s (handler ev s)"

text \<open>
  Reading a property of a parsed value, for the two names the initializer reads,
  \<^verbatim>\<open>items\<close> and \<^verbatim>\<open>expiryDate\<close>: an object gives its property of that name, and a
  missing property, like every property of those names of a boolean, number, string or
  array, is \<^verbatim>\<open>undefined\<close> (\<open>None\<close>). Reading a property of \<^verbatim>\<open>null\<close> throws, which
  \<open>try_restore\<close> handles before.
\<close>

fun get_prop :: "json \<Rightarrow> string \<Rightarrow> json option" where
  "get_prop (JObj props) k = map_of props k"
| "get_prop _ k = None"

text \<open>
  The number the comparison \<^verbatim>\<open><\<close> takes for a value when its other operand is a
  number. For a string, an array or an object the language converts the value to a
  string and reads a number from it; that conversion is the parameter \<open>to_number\<close>.
\<close>

fun ToNumber_json :: "(json \<Rightarrow> jsnum) \<Rightarrow> json option \<Rightarrow> jsnum" where
  "ToNumber_json to_number None = NaN"
| "ToNumber_json to_number (Some JNull) = Fin 0"
| "ToNumber_json to_number (Some (JBool b)) = (if b then Fin 1 else Fin 0)"
| "ToNumber_json to_number (Some (JNum n)) = n"
| "ToNumber_json to_number (Some v) = to_number v"

text \<open>
  The initializer of the \<open>items\<close> cell. \<^verbatim>\<open>JSON.parse\<close> is a parameter: it either
  throws or returns a value. \<open>has_window\<close> is the test
  \<^verbatim>\<open>typeof window !== 'undefined'\<close>, \<open>now\<close> the reading \<^verbatim>\<open>new Date().getTime()\<close>,
  and \<open>getItem\<close> the outcome of the call \<^verbatim>\<open>localStorage.getItem(CART_STORAGE_KEY)\<close>,
  which stands before the \<^verbatim>\<open>try\<close> block: the text found (\<open>None\<close>: \<^verbatim>\<open>null\<close>), or
  the exception of a browser that refuses the access to the storage. The result is the
  value the cell gets, \<open>None\<close> for \<^verbatim>\<open>undefined\<close>.
\<close>

datatype exn = SyntaxError | TypeError | SecurityError

text \<open>
  The body of the \<^verbatim>\<open>try\<close> block: \<open>Inl\<close> is a thrown exception (destructuring
  \<^verbatim>\<open>null\<close> throws), \<open>Inr (Some v)\<close> a \<^verbatim>\<open>return\<close> of \<open>v\<close> from inside the block
  and \<open>Inr None\<close> leaving the block at its end.
\<close>

definition try_restore ::
    "(string \<Rightarrow> exn + json) \<Rightarrow> (json \<Rightarrow> jsnum) \<Rightarrow> jsnum \<Rightarrow> string \<Rightarrow> exn + json option option" where
  "try_restore JSON_parse to_number now savedCart =
     (case JSON_parse savedCart of
        Inl e \<Rightarrow> Inl e
      | Inr parsed \<Rightarrow>
          if parsed = JNull then Inl TypeError
          else let items' = get_prop parsed ''items'';
                   expiryDate = get_prop parsed ''expiryDate''
               in if js_lt now (ToNumber_json to_number expiryDate) then Inr (Some items')
                  else Inr None)"

definition initial_items ::
    "bool \<Rightarrow> (string \<Rightarrow> exn + json) \<Rightarrow> (json \<Rightarrow> jsnum) \<Rightarrow> jsnum \<Rightarrow> exn + string option
       \<Rightarrow> exn + json option" where
  "initial_items has_window JSON_parse to_number now getItem =
     (if \<not> has_window then Inr (Some (JArr []))
      else case getItem of
             Inl e \<Rightarrow> Inl e
           | Inr savedCart \<Rightarrow>
               (case savedCart of
                  None \<Rightarrow> Inr (Some (JArr []))
                | Some str \<Rightarrow>
                    if str = [] then Inr (Some (JArr []))
                    else (case try_restore JSON_parse to_number now str of
                            Inr (Some items') \<Rightarrow> Inr items'
                          | Inr None \<Rightarrow> Inr (Some (JArr []))
                          | Inl error \<Rightarrow> Inr (Some (JArr [])))))"

text \<open>
  The first render reads the cell with \<^verbatim>\<open>items.reduce(...)\<close>, whose callback reads
  \<^verbatim>\<open>item.price\<close> and \<^verbatim>\<open>item.quantity\<close>. The call throws a \<^verbatim>\<open>TypeError\<close> when the
  cell holds no array, and the callback throws one at an element \<^verbatim>\<open>null\<close>; nothing
  else in the body of the component throws.
\<close>

definition first_render :: "json option \<Rightarrow> exn + unit" where
  "first_render cell =
     (case cell of
        Some (JArr elems) \<Rightarrow> if list_ex (\<lambda>item. item = JNull) elems then Inl TypeError else Inr ()
      | _ \<Rightarrow> Inl TypeError)"

text \<open>Mounting the provider: the initializer, then the first render.\<close>

definition mount ::
    "bool \<Rightarrow> (string \<Rightarrow> exn + json) \<Rightarrow> (json \<Rightarrow> jsnum) \<Rightarrow> jsnum \<Rightarrow> exn + string option
       \<Rightarrow> exn + json option" where
  "mount has_window JSON_parse to_number now getItem =
     (case initial_items has_window JSON_parse to_number now getItem of
        Inl e \<Rightarrow> Inl e
      | Inr cell \<Rightarrow> (case first_render cell of Inl e \<Rightarrow> Inl e | Inr _ \<Rightarrow> Inr cell))"

text \<open>The state of the first render, before the effect of the mount has run.\<close>

definition initial_state :: "CartItem list \<Rightarrow> json option \<Rightarrow> CartState" where
  "initial_state its entry =
     \<lparr>items = its, items_ref = 0, activePromoCode = None, isCartAnimating = False,
      localStorage = entry\<rparr>"



text \<open>
  The sum of a sequence of numbers, taken from the left in double arithmetic, for
  stating what the derived values are.
\<close>

definition sum_numbers :: "jsnum list \<Rightarrow> jsnum" where
  "sum_numbers vs = foldl js_add (Fin 0) vs"

text \<open>A finite value is a binary64 number iff rounding keeps it.\<close>

fun is_double :: "jsnum \<Rightarrow> bool" where
  "is_double (Fin x) = (round_double x = Fin x)"
| "is_double _ = True"

text \<open>The comparison \<^verbatim>\<open><=\<close>.\<close>

definition js_le :: "jsnum \<Rightarrow> jsnum \<Rightarrow> bool" where
  "js_le a b = (a \<noteq> NaN \<and> b \<noteq> NaN \<and> \<not> js_lt b a)"

section \<open>The shop page\<close>

record Specifications =
  length_s :: string
  absorption :: string
  quantity_s :: string
  material :: string
  features_s :: string

record Product =
  id_p :: jsnum
  name_p :: string
  description_p :: string
  image_p :: string
  price_p :: jsnum
  features :: "string list"
  specifications :: Specifications

text \<open>The static catalog \<^verbatim>\<open>products\<close>.\<close>

definition products :: "Product list" where
  "products =
     [\<lparr>id_p = Fin 1,
        name_p = ''Ultra-Thin 290mm'',
        description_p =
          ''Perfect for light to medium flow days. Features our innovative ultra-thin design for maximum comfort.'',
        image_p = ''/lovable-uploads/0df96e81-8434-4436-b873-45aa9c6814cf.png'',
        price_p = literal (699 / 100),
        features =
          [''Ultra-thin design for maximum comfort'',
           ''Suitable for light to medium flow'',
           ''Breathable cotton-like cover'',
           ''Up to 8 hours of protection'',
           ''Dermatologically tested''],
        specifications =
          \<lparr>length_s = ''290mm'',
           absorption = ''Light to Medium'',
           quantity_s = ''10 pads per pack'',
           material = ''Cotton-like cover with absorbent core'',
           features_s = ''Wings, Breathable, Hypoallergenic''\<rparr>\<rparr>,
      \<lparr>id_p = Fin 2,
        name_p = ''Maxi Pads 350mm'',
        description_p =
          ''Ideal for medium to heavy flow days. Enhanced absorption technology for complete confidence.'',
        image_p = ''/lovable-uploads/5064d341-66ba-411d-8a91-8781d383f256.png'',
        price_p = literal (799 / 100),
        features =
          [''Enhanced absorption technology'',
           ''Ideal for medium to heavy flow'',
           ''Extra-long for overnight protection'',
           ''Soft cotton-like surface'',
           ''Leak guard barriers''],
        specifications =
          \<lparr>length_s = ''350mm'',
           absorption = ''Medium to Heavy'',
           quantity_s = ''8 pads per pack'',
           material = ''Cotton-like cover with super absorbent core'',
           features_s = ''Wings, Extra Coverage, Leak Guards''\<rparr>\<rparr>,
      \<lparr>id_p = Fin 3,
        name_p = ''Overnight 425mm'',
        description_p =
          ''Maximum protection for peaceful nights. Up to 600ml capacity for ultimate security.'',
        image_p = ''/lovable-uploads/42c0dc8a-d937-4255-9c12-d484082d26e6.png'',
        price_p = literal (899 / 100),
        features =
          [''Maximum overnight protection'',
           ''Up to 600ml absorption capacity'',
           ''Extra-wide back for sleeping'',
           ''Soft and quiet material'',
           ''12-hour protection''],
        specifications =
          \<lparr>length_s = ''425mm'',
           absorption = ''Heavy to Very Heavy'',
           quantity_s = ''6 pads per pack'',
           material = ''Premium cotton-like cover with maximum absorbent core'',
           features_s = ''Wings, Extra Wide Back, Maximum Coverage''\<rparr>\<rparr>]"

text \<open>
  The callback of \<^verbatim>\<open>products.filter\<close>. \<open>filterBy\<close> is a \<^verbatim>\<open>FilterOption\<close>: one of
  \<^verbatim>\<open>"all"\<close>, \<^verbatim>\<open>"ultra-thin"\<close>, \<^verbatim>\<open>"maxi"\<close>, \<^verbatim>\<open>"overnight"\<close>. The two lists of the
  page take the catalog as an argument; the page computes them for \<open>products\<close>.
\<close>

definition FilterOption :: "string set" where
  "FilterOption = {''all'', ''ultra-thin'', ''maxi'', ''overnight''}"

definition passes_filter :: "string \<Rightarrow> Product \<Rightarrow> bool" where
  "passes_filter filterBy product =
     (if filterBy = ''all'' then True
      else list_ex (\<lambda>feature. includes_str (toLowerCase feature) filterBy) (features product)
           \<or> includes_str (toLowerCase (features_s (specifications product))) filterBy)"

definition filteredProducts :: "Product list \<Rightarrow> string \<Rightarrow> Product list" where
  "filteredProducts catalog filterBy = filter (passes_filter filterBy) catalog"

text \<open>
  \<^verbatim>\<open>new Date(v).getTime()\<close> for a number \<open>v\<close>: the time value is \<open>v\<close> cut to an
  integer towards zero, and \<open>NaN\<close> when \<open>v\<close> is not finite or beyond
  \<open>8.64e15\<close> in absolute value.
\<close>

fun Date_getTime :: "jsnum \<Rightarrow> jsnum" where
  "Date_getTime (Fin x) =
     (if 8640000000000000 < \<bar>x\<bar> then NaN
      else Fin (of_int (if 0 \<le> x then \<lfloor>x\<rfloor> else \<lceil>x\<rceil>)))"
| "Date_getTime _ = NaN"

text \<open>The comparator given to \<^verbatim>\<open>sort\<close>, a \<^verbatim>\<open>switch\<close> on \<open>sortBy\<close>.\<close>

definition compare_products :: "string \<Rightarrow> Product \<Rightarrow> Product \<Rightarrow> jsnum" where
  "compare_products sortBy a b =
     (if sortBy = ''price-low'' then js_sub (price_p a) (price_p b)
      else if sortBy = ''price-high'' then js_sub (price_p b) (price_p a)
      else if sortBy = ''newest'' then js_sub (Date_getTime (id_p b)) (Date_getTime (id_p a))
      else Fin 0)"

text \<open>
  \<^verbatim>\<open>Array.prototype.sort\<close> with a comparator is a stable sort in which \<open>x\<close> goes
  after \<open>y\<close> only if the comparator's value for \<open>(x, y)\<close> is greater than zero (a
  value \<open>NaN\<close> counts as zero). For a consistent comparator its result is the one of
  the stable insertion sort below; for any other the language leaves the order open.
\<close>

fun insert_by :: "('a \<Rightarrow> 'a \<Rightarrow> jsnum) \<Rightarrow> 'a \<Rightarrow> 'a list \<Rightarrow> 'a list" where
  "insert_by cmp x [] = [x]"
| "insert_by cmp x (y # ys) =
     (if js_gt (cmp x y) (Fin 0) then y # insert_by cmp x ys else x # y # ys)"

definition Array_sort :: "('a \<Rightarrow> 'a \<Rightarrow> jsnum) \<Rightarrow> 'a list \<Rightarrow> 'a list" where
  "Array_sort cmp xs = foldr (insert_by cmp) xs []"

definition sortedProducts :: "Product list \<Rightarrow> string \<Rightarrow> string \<Rightarrow> Product list" where
  "sortedProducts catalog filterBy sortBy =
     Array_sort (compare_products sortBy) (filteredProducts catalog filterBy)"

section \<open>Clearing the cart\<close>

text \<open>
  C1. \<^verbatim>\<open>clearCart\<close> removes the storage entry itself, but it also stores a new empty
  array in \<open>items\<close>, so the effect on \<^verbatim>\<open>[items]\<close> runs after the render and writes
  an envelope with no items back. Once the event is complete the items are empty and no
  promo code is active, and the entry under the cart key holds an empty envelope: it is
  not deleted.
\<close>

theorem clearCart_entry_rewritten:
  "items (step ClearCart expiry s) = []
   \<and> activePromoCode (step ClearCart expiry s) = None
   \<and> localStorage (clearCart s) = None
   \<and> localStorage (step ClearCart expiry s)
       = Some (JSON_stringify \<lparr>env_items = [], env_expiryDate = expiry\<rparr>)
   \<and> localStorage (step ClearCart expiry s)
       = Some (JObj [(''items'', JArr []), (''expiryDate'', number_json expiry)])"
  by (simp add: step_def run_effects_def clearCart_def setItems_def persist_effect_def
      JSON_stringify_def)

section \<open>Adding an item\<close>

lemma map_id_c_quantity:
  "map id_c (map (\<lambda>item. if P item then item\<lparr>quantity := f item\<rparr> else item) xs) = map id_c xs"
  by (induction xs) auto

text \<open>
  C2. The guard of \<^verbatim>\<open>addItem\<close> is \<^verbatim>\<open>!newItem.price || isNaN(newItem.price)\<close>. The
  call changes nothing, and so triggers neither a render nor the persistence effect,
  exactly when the price is absent, \<open>NaN\<close> or zero; the handler has no statement
  that throws. Every other price is accepted, a negative or an infinite one as well:
  the updated array is stored in \<open>items\<close> and has a line for the item's id.
\<close>

theorem addItem_price_guard:
  "(addItem newItem s = s
      \<longleftrightarrow> price newItem = None \<or> price newItem = Some NaN \<or> price newItem = Some (Fin 0))
   \<and> (price newItem = None \<or> price newItem = Some NaN \<or> price newItem = Some (Fin 0)
        \<longrightarrow> step (AddItem newItem) expiry s = s)
   \<and> (price newItem = Some p \<and> p \<noteq> NaN \<and> p \<noteq> Fin 0
        \<longrightarrow> items_ref (addItem newItem s) = Suc (items_ref s)
          \<and> id_c newItem \<in> id_c ` set (items (addItem newItem s)))"
proof -
  let ?bad = "price newItem = None \<or> price newItem = Some NaN \<or> price newItem = Some (Fin 0)"
  have guard: "(falsy (price newItem) \<or> isNaN (price newItem)) = ?bad"
    by (cases "price newItem") (auto simp: isNaN_def)
  have rejected: "addItem newItem s = s" if ?bad
  proof -
    from that guard have "falsy (price newItem) \<or> isNaN (price newItem)" by blast
    then show ?thesis by (simp add: addItem_def)
  qed
  have ref: "items_ref (addItem newItem s) = Suc (items_ref s)" if "\<not> ?bad"
  proof -
    from that guard have "\<not> (falsy (price newItem) \<or> isNaN (price newItem))" by blast
    then show ?thesis by (simp add: addItem_def setItems_def)
  qed
  have mem: "id_c newItem \<in> id_c ` set (items (addItem newItem s))" if "\<not> ?bad"
  proof -
    from that guard have ok: "\<not> (falsy (price newItem) \<or> isNaN (price newItem))" by blast
    show ?thesis
    proof (cases "List.find (\<lambda>item. id_c item = id_c newItem) (items s)")
      case None
      with ok show ?thesis by (simp add: addItem_def setItems_def)
    next
      case (Some existingItem)
      then have "existingItem \<in> set (items s)" "id_c existingItem = id_c newItem"
        by (auto simp: find_Some_iff)
      then have "id_c newItem \<in> id_c ` set (items s)"
        by (metis imageI)
      moreover have "id_c ` set (map (\<lambda>item. if id_c item = id_c newItem
              then item\<lparr>quantity := Math_min (Fin 99) (js_add (quantity item) (quantity newItem))\<rparr>
              else item) (items s)) = id_c ` set (items s)"
        unfolding set_map [symmetric] map_id_c_quantity ..
      ultimately show ?thesis
        using ok Some by (simp add: addItem_def setItems_def)
    qed
  qed
  have changed: "addItem newItem s \<noteq> s" if "\<not> ?bad"
    using ref [OF that] by (metis n_not_Suc_n)
  have noop: "step (AddItem newItem) expiry s = s" if ?bad
    using rejected [OF that] by (simp add: step_def run_effects_def)
  show ?thesis
    using rejected changed ref mem noop by (cases "price newItem") auto
qed


theorem addItem_price_guard_witness:
  "addItem \<lparr>id_c = ''1'', name_c = ''Sample'', description_c = [], image_c = [],
             quantity = Fin 1, price = Some (Fin 0)\<rparr> (initial_state [] None)
     = initial_state [] None
   \<and> step (AddItem \<lparr>id_c = ''1'', name_c = ''Sample'', description_c = [], image_c = [],
             quantity = Fin 1, price = None\<rparr>) (Fin 7) (initial_state [] None)
     = initial_state [] None
   \<and> items_ref (addItem \<lparr>id_c = ''1'', name_c = ''Sample'', description_c = [], image_c = [],
             quantity = Fin 1, price = Some NInf\<rparr> (initial_state [] None)) = Suc 0"
proof -
  let ?item = "\<lambda>pr. \<lparr>id_c = ''1'', name_c = ''Sample'', description_c = [], image_c = [],
             quantity = Fin 1, price = pr\<rparr>"
  have a: "addItem (?item (Some (Fin 0))) (initial_state [] None) = initial_state [] None"
    using addItem_price_guard [of "?item (Some (Fin 0))" "initial_state [] None"] by simp
  have b: "step (AddItem (?item None)) (Fin 7) (initial_state [] None) = initial_state [] None"
    using addItem_price_guard [of "?item None" "initial_state [] None" "Fin 7"] by simp
  have c: "items_ref (addItem (?item (Some NInf)) (initial_state [] None)) = Suc 0"
    using addItem_price_guard [where newItem = "?item (Some NInf)" and s = "initial_state [] None"
        and p = NInf]
    by (simp add: initial_state_def)
  from a b c show ?thesis by simp
qed

text \<open>
  The claim fails on each side: an item priced \<open>0\<close> is rejected, and an item with the
  negative price \<open>-1\<close> and one with the price \<^verbatim>\<open>Infinity\<close> are added.
\<close>

theorem addItem_price_counterexample:
  "addItem \<lparr>id_c = ''1'', name_c = ''Sample'', description_c = [], image_c = [],
             quantity = Fin 1, price = Some (Fin 0)\<rparr> (initial_state [] None)
     = initial_state [] None
   \<and> items (addItem \<lparr>id_c = ''1'', name_c = ''Sample'', description_c = [], image_c = [],
             quantity = Fin 1, price = Some (Fin (- 1))\<rparr> (initial_state [] None))
     = [\<lparr>id_c = ''1'', name_c = ''Sample'', description_c = [], image_c = [],
             quantity = Fin 1, price = Some (Fin (- 1))\<rparr>]
   \<and> items (addItem \<lparr>id_c = ''1'', name_c = ''Sample'', description_c = [], image_c = [],
             quantity = Fin 1, price = Some PInf\<rparr> (initial_state [] None))
     = [\<lparr>id_c = ''1'', name_c = ''Sample'', description_c = [], image_c = [],
             quantity = Fin 1, price = Some PInf\<rparr>]"
  by (simp add: addItem_def isNaN_def setItems_def initial_state_def Math_min_def)

text \<open>
  C3. For an accepted item whose id is not in the cart, the new line is appended at the
  end with the quantity \<^verbatim>\<open>Math.min(99, newItem.quantity)\<close>: a requested quantity
  above 99 becomes 99, and a requested quantity of at most 99 is stored as it is. There
  is no lower bound: a quantity below 1 is stored unchanged.
\<close>

theorem addItem_new_line:
  assumes "price newItem = Some p" and "p \<noteq> NaN" and "p \<noteq> Fin 0"
    and "\<forall>item \<in> set (items s). id_c item \<noteq> id_c newItem"
  shows "items (addItem newItem s)
           = items s @ [newItem\<lparr>quantity := Math_min (Fin 99) (quantity newItem)\<rparr>]
         \<and> (js_gt (quantity newItem) (Fin 99)
              \<longrightarrow> quantity (last (items (addItem newItem s))) = Fin 99)
         \<and> (\<forall>x. quantity newItem = Fin x \<and> x \<le> 99
              \<longrightarrow> quantity (last (items (addItem newItem s))) = Fin x)"
proof -
  from assms(1-3) have ok: "\<not> (falsy (price newItem) \<or> isNaN (price newItem))"
    by (simp add: isNaN_def)
  from assms(4) have absent: "List.find (\<lambda>item. id_c item = id_c newItem) (items s) = None"
    by (simp add: find_None_iff)
  have appended: "items (addItem newItem s)
      = items s @ [newItem\<lparr>quantity := Math_min (Fin 99) (quantity newItem)\<rparr>]"
    using ok absent by (simp add: addItem_def setItems_def)
  have above: "Math_min (Fin 99) q = Fin 99" if "js_gt q (Fin 99)" for q
    using that by (cases q) (simp_all add: Math_min_def js_gt_def)
  have below: "Math_min (Fin 99) (Fin x) = Fin x" if "x \<le> 99" for x
    using that by (simp add: Math_min_def)
  show ?thesis
    using appended above below by simp
qed

theorem addItem_new_line_witness:
  "items (addItem \<lparr>id_c = ''2'', name_c = ''Maxi'', description_c = [], image_c = [],
             quantity = Fin 150, price = Some (Fin 8)\<rparr> (initial_state [] None))
     = [\<lparr>id_c = ''2'', name_c = ''Maxi'', description_c = [], image_c = [],
             quantity = Fin 99, price = Some (Fin 8)\<rparr>]
   \<and> quantity (last (items (addItem \<lparr>id_c = ''2'', name_c = ''Maxi'', description_c = [],
             image_c = [], quantity = Fin 3, price = Some (Fin 8)\<rparr> (initial_state [] None))))
     = Fin 3"
proof -
  let ?item = "\<lambda>q. \<lparr>id_c = ''2'', name_c = ''Maxi'', description_c = [], image_c = [],
             quantity = q, price = Some (Fin 8)\<rparr>"
  have none: "\<forall>item \<in> set (items (initial_state [] None)). id_c item \<noteq> id_c (?item q)" for q
    by (simp add: initial_state_def)
  have a: "items (addItem (?item (Fin 150)) (initial_state [] None)) = [?item (Fin 99)]"
    using addItem_new_line [of "?item (Fin 150)" "Fin 8" "initial_state [] None", OF _ _ _ none]
    by (simp add: initial_state_def Math_min_def)
  have b: "quantity (last (items (addItem (?item (Fin 3)) (initial_state [] None)))) = Fin 3"
    using addItem_new_line [of "?item (Fin 3)" "Fin 8" "initial_state [] None", OF _ _ _ none]
    by (simp add: Math_min_def)
  from a b show ?thesis by simp
qed

text \<open>A requested quantity of \<open>0\<close> is not raised to \<open>1\<close>.\<close>

theorem addItem_new_line_counterexample:
  "items (addItem \<lparr>id_c = ''2'', name_c = ''Maxi'', description_c = [], image_c = [],
             quantity = Fin 0, price = Some (Fin 8)\<rparr> (initial_state [] None))
     = [\<lparr>id_c = ''2'', name_c = ''Maxi'', description_c = [], image_c = [],
             quantity = Fin 0, price = Some (Fin 8)\<rparr>]"
  by (simp add: addItem_def isNaN_def setItems_def initial_state_def Math_min_def)


section \<open>Changing a quantity\<close>

lemma in_range_int:
  "(js_lt (Fin (of_int q)) (Fin 1) \<or> js_gt (Fin (of_int q)) (Fin 99)) = (q < 1 \<or> 99 < q)"
proof -
  have "(rat_of_int q < 1) = (q < 1)" "(99 < rat_of_int q) = (99 < q)"
    by linarith+
  then show ?thesis by (simp add: js_gt_def)
qed

lemma quantity_of_updated:
  "\<forall>item \<in> set (map (\<lambda>item. if id_c item = i then item\<lparr>quantity := v\<rparr> else item) xs).
     id_c item = i \<longrightarrow> quantity item = v"
proof (intro ballI impI)
  fix item
  assume "item \<in> set (map (\<lambda>item. if id_c item = i then item\<lparr>quantity := v\<rparr> else item) xs)"
    and i: "id_c item = i"
  then obtain old where "item = (if id_c old = i then old\<lparr>quantity := v\<rparr> else old)"
    unfolding set_map by blast
  with i show "quantity item = v"
    by (cases "id_c old = i") simp_all
qed

text \<open>
  C8. For an id in the cart and an integer \<open>q\<close>: outside \<open>[1, 99]\<close> the call returns
  the state it was given; inside, every line with that id (there is one) gets the
  quantity \<open>q\<close> itself, its other fields and all other lines stay as they are.
\<close>

theorem updateQuantity_range:
  fixes q :: int
  assumes "i \<in> id_c ` set (items s)"
  shows "(q < 1 \<or> 99 < q \<longrightarrow> updateQuantity i (Fin (of_int q)) s = s)
         \<and> (1 \<le> q \<and> q \<le> 99 \<longrightarrow>
              items (updateQuantity i (Fin (of_int q)) s)
                = map (\<lambda>item. if id_c item = i then item\<lparr>quantity := Fin (of_int q)\<rparr> else item)
                    (items s)
              \<and> (\<exists>item \<in> set (items (updateQuantity i (Fin (of_int q)) s)). id_c item = i)
              \<and> (\<forall>item \<in> set (items (updateQuantity i (Fin (of_int q)) s)).
                    id_c item = i \<longrightarrow> quantity item = Fin (of_int q)))"
proof -
  let ?f = "\<lambda>item. if id_c item = i then item\<lparr>quantity := Fin (of_int q)\<rparr> else item"
  have out: "updateQuantity i (Fin (of_int q)) s = s" if "q < 1 \<or> 99 < q"
    using that in_range_int [of q] by (simp add: updateQuantity_def)
  have inside: "items (updateQuantity i (Fin (of_int q)) s) = map ?f (items s)"
    if "1 \<le> q \<and> q \<le> 99"
  proof -
    from that have "\<not> (q < 1 \<or> 99 < q)" by linarith
    with in_range_int [of q] show ?thesis
      by (simp add: updateQuantity_def setItems_def)
  qed
  from assms obtain old where old: "old \<in> set (items s)" "id_c old = i"
    by auto
  from old(1) have "?f old \<in> set (map ?f (items s))"
    by (rule imageI [of old "set (items s)" ?f, folded set_map])
  moreover from old(2) have "id_c (?f old) = i"
    by simp
  ultimately have present: "\<exists>item \<in> set (map ?f (items s)). id_c item = i"
    by (rule bexI [rotated])
  note exact = quantity_of_updated [of i "Fin (of_int q)" "items s"]
  show ?thesis
  proof (intro conjI impI)
    assume "q < 1 \<or> 99 < q"
    then show "updateQuantity i (Fin (of_int q)) s = s" by (rule out)
  next
    assume r: "1 \<le> q \<and> q \<le> 99"
    show "items (updateQuantity i (Fin (of_int q)) s) = map ?f (items s)"
      by (rule inside [OF r])
    show "\<exists>item \<in> set (items (updateQuantity i (Fin (of_int q)) s)). id_c item = i"
      unfolding inside [OF r] by (rule present)
    show "\<forall>item \<in> set (items (updateQuantity i (Fin (of_int q)) s)).
            id_c item = i \<longrightarrow> quantity item = Fin (of_int q)"
      unfolding inside [OF r] by (rule exact)
  qed
qed

theorem updateQuantity_range_witness:
  "updateQuantity ''1'' (Fin (of_int 100))
       (initial_state [\<lparr>id_c = ''1'', name_c = ''Pads'', description_c = [], image_c = [],
                        quantity = Fin 2, price = Some (Fin 7)\<rparr>] None)
     = initial_state [\<lparr>id_c = ''1'', name_c = ''Pads'', description_c = [], image_c = [],
                        quantity = Fin 2, price = Some (Fin 7)\<rparr>] None
   \<and> items (updateQuantity ''1'' (Fin (of_int 5))
       (initial_state [\<lparr>id_c = ''1'', name_c = ''Pads'', description_c = [], image_c = [],
                        quantity = Fin 2, price = Some (Fin 7)\<rparr>] None))
     = [\<lparr>id_c = ''1'', name_c = ''Pads'', description_c = [], image_c = [],
                        quantity = Fin 5, price = Some (Fin 7)\<rparr>]"
proof -
  let ?s = "initial_state [\<lparr>id_c = ''1'', name_c = ''Pads'', description_c = [], image_c = [],
                        quantity = Fin 2, price = Some (Fin 7)\<rparr>] None"
  have here: "''1'' \<in> id_c ` set (items ?s)"
    by (simp add: initial_state_def)
  have a: "updateQuantity ''1'' (Fin (of_int 100)) ?s = ?s"
    using updateQuantity_range [OF here, of 100] by simp
  have b: "items (updateQuantity ''1'' (Fin (of_int 5)) ?s)
      = [\<lparr>id_c = ''1'', name_c = ''Pads'', description_c = [], image_c = [],
                        quantity = Fin 5, price = Some (Fin 7)\<rparr>]"
    using updateQuantity_range [OF here, of 5] by (simp add: initial_state_def)
  from a b show ?thesis by simp
qed

text \<open>
  C10. For an integer \<open>q\<close> in \<open>[1, 99]\<close> and an id that no line of the cart has,
  \<^verbatim>\<open>updateQuantity\<close> leaves the item sequence as it is.
\<close>

theorem updateQuantity_absent_id:
  fixes q :: int
  assumes "1 \<le> q" and "q \<le> 99" and "\<forall>item \<in> set (items s). id_c item \<noteq> i"
  shows "items (updateQuantity i (Fin (of_int q)) s) = items s"
proof -
  from assms(1,2) have "\<not> (q < 1 \<or> 99 < q)" by linarith
  with in_range_int [of q]
  have "items (updateQuantity i (Fin (of_int q)) s)
      = map (\<lambda>item. if id_c item = i then item\<lparr>quantity := Fin (of_int q)\<rparr> else item) (items s)"
    by (simp add: updateQuantity_def setItems_def)
  also from assms(3) have "\<dots> = map (\<lambda>item. item) (items s)"
    by (intro map_cong) auto
  finally show ?thesis by simp
qed

theorem updateQuantity_absent_id_witness:
  "items (updateQuantity ''9'' (Fin (of_int 4))
       (initial_state [\<lparr>id_c = ''1'', name_c = ''Pads'', description_c = [], image_c = [],
                        quantity = Fin 2, price = Some (Fin 7)\<rparr>] None))
     = [\<lparr>id_c = ''1'', name_c = ''Pads'', description_c = [], image_c = [],
                        quantity = Fin 2, price = Some (Fin 7)\<rparr>]"
proof -
  let ?s = "initial_state [\<lparr>id_c = ''1'', name_c = ''Pads'', description_c = [], image_c = [],
                        quantity = Fin 2, price = Some (Fin 7)\<rparr>] None"
  have absent: "\<forall>item \<in> set (items ?s). id_c item \<noteq> ''9''"
    by (simp add: initial_state_def)
  have "(1::int) \<le> 4" "(4::int) \<le> 99" by simp_all
  from updateQuantity_absent_id [OF this absent] show ?thesis
    by (simp add: initial_state_def)
qed


section \<open>Promo codes\<close>

lemma lower_WELCOME10: "toLowerCase ''WELCOME10'' = ''welcome10''"
  by code_simp

lemma lower_SAVE20: "toLowerCase ''SAVE20'' = ''save20''"
  by code_simp

lemma lower_welcome10: "toLowerCase ''welcome10'' = ''welcome10''"
  by code_simp

lemma applyPromoCode_cases:
  "applyPromoCode c s =
     (if toLowerCase c = ''welcome10''
      then s\<lparr>activePromoCode := Some \<lparr>code = ''WELCOME10'', discount = Fin 10\<rparr>\<rparr>
      else if toLowerCase c = ''save20''
      then s\<lparr>activePromoCode := Some \<lparr>code = ''SAVE20'', discount = Fin 20\<rparr>\<rparr>
      else s)"
  unfolding applyPromoCode_def VALID_PROMO_CODES_def
  by (auto simp: lower_WELCOME10 lower_SAVE20)

text \<open>
  C7. \<^verbatim>\<open>applyPromoCode\<close> compares the lower-case forms of its argument and of the
  codes of the allow-list. \<^verbatim>\<open>"welcome10"\<close> and \<^verbatim>\<open>"WELCOME10"\<close> give the same state,
  with the promo code \<^verbatim>\<open>WELCOME10\<close> of discount 10 active; two arguments with the same
  lower-case form always give the same state. On a match the matched code becomes the
  active one whatever was active before; without a match the state is returned as it
  was.
\<close>

theorem applyPromoCode_allow_list:
  "applyPromoCode ''welcome10'' s
     = s\<lparr>activePromoCode := Some \<lparr>code = ''WELCOME10'', discount = Fin 10\<rparr>\<rparr>
   \<and> applyPromoCode ''WELCOME10'' s = applyPromoCode ''welcome10'' s
   \<and> (toLowerCase c = toLowerCase c' \<longrightarrow> applyPromoCode c s = applyPromoCode c' s)
   \<and> (toLowerCase c = ''welcome10'' \<longrightarrow>
        applyPromoCode c s = s\<lparr>activePromoCode := Some \<lparr>code = ''WELCOME10'', discount = Fin 10\<rparr>\<rparr>)
   \<and> (toLowerCase c = ''save20'' \<longrightarrow>
        applyPromoCode c s = s\<lparr>activePromoCode := Some \<lparr>code = ''SAVE20'', discount = Fin 20\<rparr>\<rparr>)
   \<and> (toLowerCase c \<noteq> ''welcome10'' \<and> toLowerCase c \<noteq> ''save20'' \<longrightarrow> applyPromoCode c s = s)"
proof (intro conjI impI)
  show "applyPromoCode ''welcome10'' s
      = s\<lparr>activePromoCode := Some \<lparr>code = ''WELCOME10'', discount = Fin 10\<rparr>\<rparr>"
    by (simp add: applyPromoCode_cases lower_welcome10)
  show "applyPromoCode ''WELCOME10'' s = applyPromoCode ''welcome10'' s"
    by (simp add: applyPromoCode_cases lower_welcome10 lower_WELCOME10)
next
  assume "toLowerCase c = toLowerCase c'"
  then show "applyPromoCode c s = applyPromoCode c' s"
    by (simp add: applyPromoCode_def)
next
  assume "toLowerCase c = ''welcome10''"
  then show "applyPromoCode c s
      = s\<lparr>activePromoCode := Some \<lparr>code = ''WELCOME10'', discount = Fin 10\<rparr>\<rparr>"
    by (simp add: applyPromoCode_cases)
next
  assume "toLowerCase c = ''save20''"
  then show "applyPromoCode c s
      = s\<lparr>activePromoCode := Some \<lparr>code = ''SAVE20'', discount = Fin 20\<rparr>\<rparr>"
    by (simp add: applyPromoCode_cases)
next
  assume "toLowerCase c \<noteq> ''welcome10'' \<and> toLowerCase c \<noteq> ''save20''"
  then show "applyPromoCode c s = s"
    by (simp add: applyPromoCode_cases)
qed

theorem applyPromoCode_allow_list_witness:
  "applyPromoCode ''Save20''
       ((initial_state [] None)\<lparr>activePromoCode := Some \<lparr>code = ''WELCOME10'', discount = Fin 10\<rparr>\<rparr>)
     = (initial_state [] None)\<lparr>activePromoCode := Some \<lparr>code = ''SAVE20'', discount = Fin 20\<rparr>\<rparr>
   \<and> applyPromoCode ''WeLcOmE10'' (initial_state [] None)
     = (initial_state [] None)\<lparr>activePromoCode := Some \<lparr>code = ''WELCOME10'', discount = Fin 10\<rparr>\<rparr>
   \<and> applyPromoCode ''sAVE20'' (initial_state [] None)
     = applyPromoCode ''Save20'' (initial_state [] None)
   \<and> applyPromoCode ''WELCOME20'' (initial_state [] None) = initial_state [] None"
proof -
  have l1: "toLowerCase ''Save20'' = ''save20''" by code_simp
  have l2: "toLowerCase ''WeLcOmE10'' = ''welcome10''" by code_simp
  have l3: "toLowerCase ''sAVE20'' = toLowerCase ''Save20''" by code_simp
  have l4: "toLowerCase ''WELCOME20'' \<noteq> ''welcome10'' \<and> toLowerCase ''WELCOME20'' \<noteq> ''save20''"
    by code_simp
  let ?s = "(initial_state [] None)\<lparr>activePromoCode := Some \<lparr>code = ''WELCOME10'', discount = Fin 10\<rparr>\<rparr>"
  have a: "applyPromoCode ''Save20'' ?s
      = (initial_state [] None)\<lparr>activePromoCode := Some \<lparr>code = ''SAVE20'', discount = Fin 20\<rparr>\<rparr>"
    using applyPromoCode_allow_list [of ?s "''Save20''" "''Save20''"] l1 by simp
  have b: "applyPromoCode ''WeLcOmE10'' (initial_state [] None)
      = (initial_state [] None)\<lparr>activePromoCode := Some \<lparr>code = ''WELCOME10'', discount = Fin 10\<rparr>\<rparr>"
    using applyPromoCode_allow_list [of "initial_state [] None" "''WeLcOmE10''" "''WeLcOmE10''"] l2
    by simp
  have c: "applyPromoCode ''sAVE20'' (initial_state [] None)
      = applyPromoCode ''Save20'' (initial_state [] None)"
    using applyPromoCode_allow_list [of "initial_state [] None" "''sAVE20''" "''Save20''"] l3
    by blast
  have d: "applyPromoCode ''WELCOME20'' (initial_state [] None) = initial_state [] None"
    using applyPromoCode_allow_list [of "initial_state [] None" "''WELCOME20''" "''WELCOME20''"] l4
    by blast
  from a b c d show ?thesis by blast
qed

section \<open>Restoring the cart\<close>

text \<open>
  What the initializer does for every stored text that could be read: it does not throw;
  a text that \<^verbatim>\<open>JSON.parse\<close> rejects, the text \<^verbatim>\<open>null\<close> and a value whose
  \<^verbatim>\<open>expiryDate\<close> the clock's reading is not strictly before give the empty array; in
  the remaining case the cell gets the \<^verbatim>\<open>items\<close> property of the parsed value as it
  is, whatever it is. An exception of the storage access itself is not caught.
\<close>

lemma initial_items_cases:
  "(\<exists>cell. initial_items has_window JSON_parse to_number now (Inr savedCart) = Inr cell)
   \<and> (JSON_parse str = Inl e \<longrightarrow>
        initial_items has_window JSON_parse to_number now (Inr (Some str)) = Inr (Some (JArr [])))
   \<and> (JSON_parse str = Inr JNull \<longrightarrow>
        initial_items has_window JSON_parse to_number now (Inr (Some str)) = Inr (Some (JArr [])))
   \<and> (JSON_parse str = Inr parsed
        \<and> \<not> js_lt now (ToNumber_json to_number (get_prop parsed ''expiryDate'')) \<longrightarrow>
        initial_items has_window JSON_parse to_number now (Inr (Some str)) = Inr (Some (JArr [])))
   \<and> (has_window \<and> str \<noteq> [] \<and> JSON_parse str = Inr parsed \<and> parsed \<noteq> JNull
        \<and> js_lt now (ToNumber_json to_number (get_prop parsed ''expiryDate'')) \<longrightarrow>
        initial_items has_window JSON_parse to_number now (Inr (Some str))
          = Inr (get_prop parsed ''items''))
   \<and> (has_window \<longrightarrow>
        initial_items has_window JSON_parse to_number now (Inl e) = Inl e)"
proof (intro conjI impI)
  show "\<exists>cell. initial_items has_window JSON_parse to_number now (Inr savedCart) = Inr cell"
    by (simp add: initial_items_def split: option.split sum.split)
qed (simp_all add: initial_items_def try_restore_def Let_def)

text \<open>
  C6. The initializer restores the items of a stored envelope when the clock's reading is
  strictly before its \<open>expiryDate\<close>, and a text that does not parse or has expired
  gives an empty cart. But the shape of the parsed value is not checked. The stored text
  \<^verbatim>\<open>{"expiryDate":2000}\<close>, read at the time \<open>1000\<close>, parses to an object without
  \<^verbatim>\<open>items\<close>: the comparison holds, the initializer returns \<^verbatim>\<open>undefined\<close>, and the
  first render throws a \<^verbatim>\<open>TypeError\<close> at \<^verbatim>\<open>items.reduce\<close>. The same text read at
  \<open>2000\<close> gives the empty cart, and so does a text that is no JSON.
\<close>

theorem initial_items_unvalidated:
  \<open>initial_items True
       (\<lambda>t. if t = ''{"expiryDate":2000}'' then Inr (JObj [(''expiryDate'', JNum (Fin 2000))])
             else Inl SyntaxError)
       (\<lambda>v. NaN) (Fin 1000) (Inr (Some ''{"expiryDate":2000}''))
     = Inr None
   \<and> mount True
       (\<lambda>t. if t = ''{"expiryDate":2000}'' then Inr (JObj [(''expiryDate'', JNum (Fin 2000))])
             else Inl SyntaxError)
       (\<lambda>v. NaN) (Fin 1000) (Inr (Some ''{"expiryDate":2000}''))
     = Inl TypeError
   \<and> mount True
       (\<lambda>t. if t = ''{"expiryDate":2000}'' then Inr (JObj [(''expiryDate'', JNum (Fin 2000))])
             else Inl SyntaxError)
       (\<lambda>v. NaN) (Fin 2000) (Inr (Some ''{"expiryDate":2000}''))
     = Inr (Some (JArr []))
   \<and> mount True
       (\<lambda>t. if t = ''{"expiryDate":2000}'' then Inr (JObj [(''expiryDate'', JNum (Fin 2000))])
             else Inl SyntaxError)
       (\<lambda>v. NaN) (Fin 1000) (Inr (Some ''{items''))
     = Inr (Some (JArr []))\<close>
  by (simp add: mount_def initial_items_def try_restore_def first_render_def)

section \<open>Rounding to binary64\<close>

text \<open>
  \<open>ilog2\<close> is the exponent of its argument; rounding is exact on the integers up to
  \<open>2 ^ 53\<close>, never goes below the power of two under its argument, and commutes with
  negation.
\<close>

lemma bitlen_powi_bounds:
  fixes p :: int
  assumes "0 < p"
  shows "(2::rat) powi (bitlen p - 1) \<le> of_int p" "of_int p < (2::rat) powi (bitlen p)"
proof -
  from bitlen_bounds [OF assms] have b: "2 ^ nat (bitlen p - 1) \<le> p" "p < 2 ^ nat (bitlen p)"
    by simp_all
  from assms have b1: "1 \<le> bitlen p"
    by (simp add: bitlen_alt_def)
  have "(2::rat) powi (bitlen p - 1) = 2 ^ nat (bitlen p - 1)"
    using b1 by (simp add: power_int_def)
  also have "\<dots> = of_int (2 ^ nat (bitlen p - 1))" by simp
  also have "\<dots> \<le> of_int p" using b(1) by (simp only: of_int_le_iff)
  finally show "(2::rat) powi (bitlen p - 1) \<le> of_int p" .
  have "of_int p < (of_int (2 ^ nat (bitlen p)) :: rat)" using b(2) by (simp only: of_int_less_iff)
  also have "\<dots> = 2 powi (bitlen p)" using b1 by (simp add: power_int_def)
  finally show "of_int p < (2::rat) powi (bitlen p)" .
qed

lemma ilog2_bounds:
  assumes "0 < x"
  shows "2 powi (ilog2 x) \<le> x" "x < 2 powi (ilog2 x + 1)"
proof -
  obtain p q where pq: "quotient_of x = (p, q)" by (cases "quotient_of x")
  then have q: "0 < q" by (rule quotient_of_denom_pos)
  from pq have x: "x = of_int p / of_int q" by (rule quotient_of_div)
  with assms q have p: "0 < p" by (simp add: zero_less_divide_iff)
  let ?d = "bitlen p - bitlen q"
  note bp = bitlen_powi_bounds [OF p] and bq = bitlen_powi_bounds [OF q]
  have qpos: "(0::rat) < of_int q" using q by simp
  have lo: "(2::rat) powi (?d - 1) \<le> x"
  proof -
    have "?d - 1 = (bitlen p - 1) - bitlen q" by simp
    then have "(2::rat) powi (?d - 1) = 2 powi (bitlen p - 1) / 2 powi (bitlen q)"
      by (simp only: power_int_diff [of "2::rat", simplified])
    also have "\<dots> \<le> of_int p / 2 powi (bitlen q)"
      using bp(1) by (simp add: divide_right_mono)
    also have "\<dots> \<le> of_int p / of_int q"
      using bq(2) p qpos by (intro divide_left_mono) simp_all
    finally show ?thesis by (simp add: x)
  qed
  have hi: "x < (2::rat) powi (?d + 1)"
  proof -
    have pw: "(0::rat) < 2 powi (bitlen q - 1)" by simp
    have "x = of_int p / of_int q" by (rule x)
    also have "\<dots> \<le> of_int p / 2 powi (bitlen q - 1)"
      using bq(1) p pw qpos by (intro divide_left_mono mult_pos_pos) simp_all
    also have "\<dots> < 2 powi (bitlen p) / 2 powi (bitlen q - 1)"
      using bp(2) pw by (simp add: divide_strict_right_mono)
    also have "\<dots> = 2 powi (bitlen p - (bitlen q - 1))"
      by (simp only: power_int_diff [of "2::rat", simplified])
    also have "bitlen p - (bitlen q - 1) = ?d + 1" by simp
    finally show ?thesis .
  qed
  have il: "ilog2 x = (if 2 powi ?d \<le> x then ?d else ?d - 1)"
    by (simp add: ilog2_def pq Let_def)
  show "2 powi (ilog2 x) \<le> x"
    using lo by (simp add: il)
  show "x < 2 powi (ilog2 x + 1)"
    using hi by (auto simp: il not_le)
qed

lemma ilog2_unique:
  assumes "2 powi k \<le> x" and "x < 2 powi (k + 1)"
  shows "ilog2 x = k"
proof -
  have "(0::rat) < 2 powi k" by simp
  with assms(1) have pos: "0 < x" by linarith
  note b = ilog2_bounds [OF pos]
  have "(2::rat) powi k < 2 powi (ilog2 x + 1)"
    using assms(1) b(2) by simp
  then have "k < ilog2 x + 1"
    by (metis linorder_not_less power_int_increasing one_le_numeral)
  moreover have "(2::rat) powi (ilog2 x) < 2 powi (k + 1)"
    using assms(2) b(1) by simp
  then have "ilog2 x < k + 1"
    by (metis linorder_not_less power_int_increasing one_le_numeral)
  ultimately show ?thesis by simp
qed

lemma round_half_even_of_int: "round_half_even (of_int n) = n"
  by (simp add: round_half_even_def)

lemma round_half_even_ge:
  assumes "of_int n \<le> y"
  shows "n \<le> round_half_even y"
proof -
  from assms have "n \<le> \<lfloor>y\<rfloor>" by (simp add: le_floor_iff)
  then show ?thesis by (simp add: round_half_even_def Let_def)
qed


lemma round_double_minus: "round_double (- x) = js_neg (round_double x)"
  by (simp add: round_double_def Let_def)

lemma round_double_lower:
  assumes "0 < x" and "e = max (ilog2 x - 52) (- 1074)" and "of_int n \<le> x / 2 powi e"
  shows "round_double x = PInf \<or> (\<exists>v. round_double x = Fin v \<and> of_int n * 2 powi e \<le> v)"
proof -
  let ?m = "round_half_even (x / 2 powi e)"
  from assms(3) have "n \<le> ?m" by (rule round_half_even_ge)
  then have "(of_int n :: rat) \<le> of_int ?m" by (simp only: of_int_le_iff)
  then have "of_int n * 2 powi e \<le> of_int ?m * (2::rat) powi e"
    by (intro mult_right_mono) simp_all
  moreover have "round_double x
      = (if (2::rat) powi 1024 \<le> of_int ?m * 2 powi e then PInf else Fin (of_int ?m * 2 powi e))"
    using assms(1,2) by (simp add: round_double_def Let_def)
  ultimately show ?thesis by simp
qed

lemma round_double_of_int:
  fixes n :: int
  assumes "\<bar>n\<bar> \<le> 2 ^ 53"
  shows "round_double (of_int n) = Fin (of_int n)"
proof (cases "n = 0")
  case True
  then show ?thesis by (simp add: round_double_def)
next
  case False
  let ?a = "\<bar>of_int n\<bar> :: rat"
  let ?k = "ilog2 ?a"
  from False have "1 \<le> \<bar>n\<bar>" by simp
  then have "(of_int 1 :: rat) \<le> of_int \<bar>n\<bar>" by (simp only: of_int_le_iff)
  then have a1: "1 \<le> ?a" by simp
  then have apos: "0 < ?a" by linarith
  note b = ilog2_bounds [OF apos]
  from assms have "(of_int \<bar>n\<bar> :: rat) \<le> of_int (2 ^ 53)" by (simp only: of_int_le_iff)
  then have a53: "?a \<le> 2 ^ 53" by simp
  have "(2::rat) powi 0 < 2 powi (?k + 1)" using a1 b(2) by simp
  then have k0: "0 \<le> ?k"
    by (metis linorder_not_less power_int_increasing one_le_numeral zle_add1_eq_le)
  have "(2::rat) powi ?k \<le> 2 powi 53" using a53 b(1) by simp
  then have k53: "?k \<le> 53"
    by (metis linorder_not_less power_int_strict_increasing one_less_numeral_iff semiring_norm(76))
  have e: "max (?k - 52) (- 1074) = ?k - 52" using k0 by simp
  have "\<exists>m::int. ?a / 2 powi (?k - 52) = of_int m"
  proof (cases "?k \<le> 52")
    case True
    then have "(2::rat) powi (?k - 52) = 1 / 2 ^ nat (52 - ?k)"
      by (simp add: power_int_def field_simps)
    then have "?a / 2 powi (?k - 52) = of_int (\<bar>n\<bar> * 2 ^ nat (52 - ?k))"
      by simp
    then show ?thesis ..
  next
    case False
    with k53 have k: "?k = 53" by simp
    with b(1) a53 have "?a = 2 ^ 53" by simp
    with k have "?a / 2 powi (?k - 52) = of_int (2 ^ 52)" by simp
    then show ?thesis ..
  qed
  then obtain m :: int where m: "?a / 2 powi (?k - 52) = of_int m" ..
  then have v: "of_int m * 2 powi (?k - 52) = ?a" by (simp add: field_simps)
  have small: "\<not> 2 powi 1024 \<le> ?a" using a53 by simp
  have "sgn (of_int n :: rat) * ?a = of_int n"
    by (simp only: sgn_mult_abs)
  with False small show ?thesis
    by (simp add: round_double_def Let_def e m round_half_even_of_int v split del: if_split)
qed


lemma round_half_even_near:
  assumes "\<bar>y - of_int m\<bar> < 1 / 2"
  shows "round_half_even y = m"
proof (cases "of_int m \<le> y")
  case True
  with assms have "of_int m \<le> y" "y < of_int m + 1" by linarith+
  then have f: "\<lfloor>y\<rfloor> = m" by (simp add: floor_unique)
  from assms True have "y - of_int m < 1 / 2" by linarith
  with f show ?thesis by (simp add: round_half_even_def)
next
  case False
  with assms have "of_int m - 1 \<le> y" "y < of_int m" by linarith+
  then have "of_int (m - 1) \<le> y" "y < of_int (m - 1) + 1" by simp_all
  then have f: "\<lfloor>y\<rfloor> = m - 1" by (rule floor_unique)
  from assms False have "1 / 2 < y - (of_int m - 1)" by linarith
  then have "1 / 2 < y - of_int (m - 1)" by simp
  with f show ?thesis by (simp add: round_half_even_def Let_def)
qed

lemma round_half_even_tie:
  assumes "y = of_int f + 1 / 2"
  shows "round_half_even y = (if even f then f else f + 1)"
proof -
  from assms have "of_int f \<le> y" "y < of_int f + 1" by simp_all
  then have "\<lfloor>y\<rfloor> = f" by (rule floor_unique)
  with assms show ?thesis by (simp add: round_half_even_def)
qed

lemma round_double_exponent:
  assumes "2 powi k \<le> \<bar>x\<bar>" and "\<bar>x\<bar> < 2 powi (k + 1)" and "- 1022 \<le> k"
    and "round_half_even (\<bar>x\<bar> / 2 powi (k - 52)) = m"
    and "of_int m * 2 powi (k - 52) < (2::rat) powi 1024"
  shows "round_double x = Fin (sgn x * (of_int m * 2 powi (k - 52)))"
proof -
  have "(0::rat) < 2 powi k" by simp
  with assms(1) have "0 < \<bar>x\<bar>" by linarith
  then have "x \<noteq> 0" by simp
  moreover have "ilog2 \<bar>x\<bar> = k" using assms(1,2) by (rule ilog2_unique)
  moreover have "max (k - 52) (- 1074) = k - 52" using assms(3) by simp
  ultimately show ?thesis
    using assms(4,5) by (simp add: round_double_def Let_def del: power_int_numeral)
qed

lemma round_double_normal:
  assumes "2 powi k \<le> \<bar>x\<bar>" and "\<bar>x\<bar> < 2 powi (k + 1)" and "- 1022 \<le> k"
    and "\<bar>\<bar>x\<bar> / 2 powi (k - 52) - of_int m\<bar> < 1 / 2"
    and "of_int m * 2 powi (k - 52) < (2::rat) powi 1024"
  shows "round_double x = Fin (sgn x * (of_int m * 2 powi (k - 52)))"
  using assms(1,2,3) round_half_even_near [OF assms(4)] assms(5)
  by (rule round_double_exponent)

lemma round_double_tie:
  assumes "2 powi k \<le> \<bar>x\<bar>" and "\<bar>x\<bar> < 2 powi (k + 1)" and "- 1022 \<le> k"
    and "\<bar>x\<bar> / 2 powi (k - 52) = of_int f + 1 / 2" and "m = (if even f then f else f + 1)"
    and "of_int m * 2 powi (k - 52) < (2::rat) powi 1024"
  shows "round_double x = Fin (sgn x * (of_int m * 2 powi (k - 52)))"
proof -
  from round_half_even_tie [OF assms(4)] assms(5)
  have "round_half_even (\<bar>x\<bar> / 2 powi (k - 52)) = m" by simp
  with assms(1,2,3) show ?thesis using assms(6) by (rule round_double_exponent)
qed

lemma literal_6_99: "literal (699 / 100) = Fin (3935020174414971 / 562949953421312)"
  unfolding literal_def
  by (rule round_double_normal [where k = 2 and m = 7870040348829942, THEN trans]) simp_all



section \<open>Adding the same product again\<close>













section \<open>Derived values\<close>

lemma foldl_skip_NaN:
  "foldl (\<lambda>sum item. let itemTotal = f item
                      in if isNaN (Some itemTotal) then sum else js_add sum itemTotal) a xs
     = foldl js_add a (filter (\<lambda>v. v \<noteq> NaN) (map f xs))"
  by (induction xs arbitrary: a) (simp_all add: isNaN_def Let_def)

lemma foldl_quantities:
  "foldl (\<lambda>sum item. js_add sum (quantity item)) a xs = foldl js_add a (map quantity xs)"
  by (induction xs arbitrary: a) simp_all

text \<open>
  C5. In every state, and so after every event, \<open>subtotal\<close> is the sum of the
  products price times quantity of the current items that are not \<open>NaN\<close>,
  \<open>totalItems\<close> is the sum of their quantities, and \<open>total\<close> is \<open>subtotal\<close> without
  an active promo code and \<open>subtotal * (1 - discount / 100)\<close> for the discount of the
  active one.
\<close>

theorem derived_values:
  "subtotal s
     = sum_numbers (filter (\<lambda>v. v \<noteq> NaN)
         (map (\<lambda>item. js_mul (ToNumber (price item)) (quantity item)) (items s)))
   \<and> totalItems s = sum_numbers (map quantity (items s))
   \<and> (activePromoCode s = None \<longrightarrow> total s = subtotal s)
   \<and> (activePromoCode s = Some promo \<longrightarrow>
        total s = js_mul (subtotal s) (js_sub (Fin 1) (js_div (discount promo) (Fin 100))))
   \<and> subtotal (step ev expiry s)
     = sum_numbers (filter (\<lambda>v. v \<noteq> NaN)
         (map (\<lambda>item. js_mul (ToNumber (price item)) (quantity item)) (items (step ev expiry s))))
   \<and> totalItems (step ev expiry s) = sum_numbers (map quantity (items (step ev expiry s)))"
  by (simp add: subtotal_def totalItems_def total_def sum_numbers_def foldl_skip_NaN
      foldl_quantities)


lemma round_one_fifth: "round_double (1 / 5) = Fin (3602879701896397 / 18014398509481984)"
  by (rule round_double_normal [where k = "- 3" and m = 7205759403792794, THEN trans]) simp_all

lemma round_four_fifths:
  "round_double (14411518807585587 / 18014398509481984) = Fin (3602879701896397 / 4503599627370496)"
  by (rule round_double_tie [where k = "- 1" and f = 7205759403792793 and m = 7205759403792794,
        THEN trans]) simp_all

lemma round_eighty:
  "round_double (90071992547409925 / 1125899906842624) = Fin 80"
  by (rule round_double_normal [where k = 6 and m = 5629499534213120, THEN trans]) simp_all

lemma round_100: "round_double 100 = Fin 100"
  using round_double_of_int [of 100] by simp

text \<open>
  One line of price 100 and quantity 1: with \<^verbatim>\<open>SAVE20\<close> active the total is 80, and
  after \<^verbatim>\<open>removePromoCode\<close> it is the subtotal 100 again.
\<close>

theorem derived_values_witness:
  "total \<lparr>items = [\<lparr>id_c = ''1'', name_c = ''Box'', description_c = [], image_c = [],
              quantity = Fin 1, price = Some (Fin 100)\<rparr>], items_ref = 1,
            activePromoCode = Some \<lparr>code = ''SAVE20'', discount = Fin 20\<rparr>,
            isCartAnimating = False, localStorage = None\<rparr> = Fin 80
   \<and> total (removePromoCode
           \<lparr>items = [\<lparr>id_c = ''1'', name_c = ''Box'', description_c = [], image_c = [],
              quantity = Fin 1, price = Some (Fin 100)\<rparr>], items_ref = 1,
            activePromoCode = Some \<lparr>code = ''SAVE20'', discount = Fin 20\<rparr>,
            isCartAnimating = False, localStorage = None\<rparr>) = Fin 100"
proof -
  let ?s = "\<lparr>items = [\<lparr>id_c = ''1'', name_c = ''Box'', description_c = [], image_c = [],
              quantity = Fin 1, price = Some (Fin 100)\<rparr>], items_ref = 1,
            activePromoCode = Some \<lparr>code = ''SAVE20'', discount = Fin 20\<rparr>,
            isCartAnimating = False, localStorage = None\<rparr>"
  note on = derived_values [where s = ?s and promo = "\<lparr>code = ''SAVE20'', discount = Fin 20\<rparr>"]
  note off = derived_values [where s = "removePromoCode ?s"]
  from on [THEN conjunct1] have sub: "subtotal ?s = Fin 100"
    by (simp add: sum_numbers_def round_100)
  from off [THEN conjunct1] have sub': "subtotal (removePromoCode ?s) = Fin 100"
    by (simp add: sum_numbers_def round_100 removePromoCode_def)
  have factor: "js_sub (Fin 1) (js_div (Fin 20) (Fin 100)) = Fin (3602879701896397 / 4503599627370496)"
    by (simp add: js_sub_def round_one_fifth round_four_fifths)
  from on [THEN conjunct2, THEN conjunct2, THEN conjunct2, THEN conjunct1]
  have "total ?s = js_mul (subtotal ?s) (js_sub (Fin 1) (js_div (Fin 20) (Fin 100)))"
    by simp
  then have a: "total ?s = Fin 80"
    by (simp only: sub factor) (simp add: round_eighty)
  from off [THEN conjunct2, THEN conjunct2, THEN conjunct1]
  have "total (removePromoCode ?s) = subtotal (removePromoCode ?s)"
    by (simp add: removePromoCode_def)
  then have b: "total (removePromoCode ?s) = Fin 100"
    by (simp only: sub')
  from a b show ?thesis by simp
qed


section \<open>Filtering and sorting the catalog\<close>

lemma starts_with_iff: "starts_with hay needle \<longleftrightarrow> (\<exists>post. hay = needle @ post)"
  by (induction hay needle rule: starts_with.induct) auto

lemma includes_str_iff: "includes_str hay needle \<longleftrightarrow> (\<exists>pre post. hay = pre @ needle @ post)"
proof (induction hay)
  case Nil
  then show ?case by simp
next
  case (Cons c cs)
  show ?case
  proof
    assume "includes_str (c # cs) needle"
    then consider "starts_with (c # cs) needle" | "includes_str cs needle" by auto
    then show "\<exists>pre post. c # cs = pre @ needle @ post"
    proof cases
      case 1
      then obtain post where "c # cs = [] @ needle @ post" by (auto simp: starts_with_iff)
      then show ?thesis by blast
    next
      case 2
      with Cons.IH obtain pre post where "cs = pre @ needle @ post" by blast
      then have "c # cs = (c # pre) @ needle @ post" by simp
      then show ?thesis by blast
    qed
  next
    assume "\<exists>pre post. c # cs = pre @ needle @ post"
    then obtain pre post where eq: "c # cs = pre @ needle @ post" by blast
    show "includes_str (c # cs) needle"
    proof (cases pre)
      case Nil
      with eq have "starts_with (c # cs) needle" by (auto simp: starts_with_iff)
      then show ?thesis by simp
    next
      case (Cons d pre')
      with eq have "cs = pre' @ needle @ post" by simp
      with Cons.IH have "includes_str cs needle" by blast
      then show ?thesis by simp
    qed
  qed
qed

lemma FilterOption_lower: "filterBy \<in> FilterOption \<Longrightarrow> toLowerCase filterBy = filterBy"
proof -
  have "toLowerCase ''all'' = ''all''" "toLowerCase ''ultra-thin'' = ''ultra-thin''"
    "toLowerCase ''maxi'' = ''maxi''" "toLowerCase ''overnight'' = ''overnight''"
    by code_simp+
  then show "filterBy \<in> FilterOption \<Longrightarrow> toLowerCase filterBy = filterBy"
    by (auto simp: FilterOption_def)
qed

lemma mset_insert_by: "mset (insert_by cmp x ys) = add_mset x (mset ys)"
  by (induction ys) simp_all

lemma mset_Array_sort: "mset (Array_sort cmp xs) = mset xs"
  by (induction xs) (simp_all add: Array_sort_def mset_insert_by)

lemma set_insert_by: "set (insert_by cmp x ys) = insert x (set ys)"
  using mset_insert_by [of cmp x ys, THEN arg_cong [where f = set_mset]] by simp

lemma set_Array_sort: "set (Array_sort cmp xs) = set xs"
  using mset_Array_sort [of cmp xs, THEN arg_cong [where f = set_mset]] by simp

lemma sorted_wrt_insert_by:
  assumes "sorted_wrt P ys" and "set ys \<subseteq> S" and "x \<in> S"
    and after: "\<And>a b. a \<in> S \<Longrightarrow> b \<in> S \<Longrightarrow> js_gt (cmp a b) (Fin 0) \<Longrightarrow> P b a"
    and before: "\<And>a b. a \<in> S \<Longrightarrow> b \<in> S \<Longrightarrow> \<not> js_gt (cmp a b) (Fin 0) \<Longrightarrow> P a b"
    and trans: "\<And>a b c. a \<in> S \<Longrightarrow> b \<in> S \<Longrightarrow> c \<in> S \<Longrightarrow> P a b \<Longrightarrow> P b c \<Longrightarrow> P a c"
  shows "sorted_wrt P (insert_by cmp x ys)"
  using assms(1,2)
proof (induction ys)
  case Nil
  then show ?case by simp
next
  case (Cons y ys)
  from Cons.prems have y: "y \<in> S" and ys: "set ys \<subseteq> S"
    and yz: "\<forall>z \<in> set ys. P y z" and sorted: "sorted_wrt P ys"
    by simp_all
  show ?case
  proof (cases "js_gt (cmp x y) (Fin 0)")
    case True
    with after [OF assms(3) y] have "P y x" .
    moreover have "sorted_wrt P (insert_by cmp x ys)"
      using sorted ys by (rule Cons.IH)
    ultimately show ?thesis
      using True yz by (simp add: set_insert_by)
  next
    case False
    with before [OF assms(3) y] have xy: "P x y" .
    have "\<forall>z \<in> set ys. P x z"
    proof
      fix z assume z: "z \<in> set ys"
      with yz have "P y z" ..
      moreover from z ys have "z \<in> S" ..
      ultimately show "P x z" using trans [OF assms(3) y _ xy] by blast
    qed
    with xy False yz sorted show ?thesis by simp
  qed
qed

lemma sorted_wrt_Array_sort:
  assumes "set xs \<subseteq> S"
    and after: "\<And>a b. a \<in> S \<Longrightarrow> b \<in> S \<Longrightarrow> js_gt (cmp a b) (Fin 0) \<Longrightarrow> P b a"
    and before: "\<And>a b. a \<in> S \<Longrightarrow> b \<in> S \<Longrightarrow> \<not> js_gt (cmp a b) (Fin 0) \<Longrightarrow> P a b"
    and trans: "\<And>a b c. a \<in> S \<Longrightarrow> b \<in> S \<Longrightarrow> c \<in> S \<Longrightarrow> P a b \<Longrightarrow> P b c \<Longrightarrow> P a c"
  shows "sorted_wrt P (Array_sort cmp xs)"
  using assms(1)
proof (induction xs)
  case Nil
  then show ?case by (simp add: Array_sort_def)
next
  case (Cons x xs)
  have step: "Array_sort cmp (x # xs) = insert_by cmp x (Array_sort cmp xs)"
    by (simp add: Array_sort_def)
  from Cons.prems have x: "x \<in> S" and xs: "set xs \<subseteq> S" by simp_all
  from xs have "sorted_wrt P (Array_sort cmp xs)" by (rule Cons.IH)
  moreover from xs have "set (Array_sort cmp xs) \<subseteq> S" by (simp only: set_Array_sort)
  ultimately show ?case
    unfolding step using x after before trans by (rule sorted_wrt_insert_by)
qed

lemma Array_sort_zero:
  assumes "\<forall>a b. \<not> js_gt (cmp a b) (Fin 0)"
  shows "Array_sort cmp xs = xs"
proof (induction xs)
  case Nil
  then show ?case by (simp add: Array_sort_def)
next
  case (Cons x xs)
  have "insert_by cmp x ys = x # ys" for ys
    using assms by (cases ys) simp_all
  with Cons show ?case by (simp add: Array_sort_def)
qed

text \<open>
  A binary64 value is a multiple of \<open>2 ^ - 1074\<close>, so the difference of two of them
  is rounded to a number of its own sign: the comparator \<^verbatim>\<open>a.price - b.price\<close> is
  positive exactly when \<open>a\<close> is the dearer one.
\<close>

lemma is_double_grid:
  assumes "round_double x = Fin x"
  shows "\<exists>j::int. x = of_int j * 2 powi (- 1074)"
proof (cases "x = 0")
  case True
  then have "x = of_int 0 * 2 powi (- 1074)" by simp
  then show ?thesis ..
next
  case False
  define e where "e = max (ilog2 \<bar>x\<bar> - 52) (- 1074)"
  define m where "m = round_half_even (\<bar>x\<bar> / 2 powi e)"
  from assms False have x: "x = sgn x * (of_int m * 2 powi e)"
    by (simp add: round_double_def Let_def e_def m_def split: if_splits)
  have "0 \<le> e + 1074" by (simp add: e_def)
  then have "(2::rat) powi (e + 1074) = of_int (2 ^ nat (e + 1074))"
    by (simp add: power_int_def)
  moreover have "(2::rat) powi e = 2 powi (e + 1074) * 2 powi (- 1074)"
    using power_int_add [of "2::rat" "e + 1074" "- 1074"] by simp
  ultimately have p: "(2::rat) powi e = of_int (2 ^ nat (e + 1074)) * 2 powi (- 1074)"
    by simp
  have "sgn x = (of_int (if x < 0 then - 1 else 1) :: rat)"
    using False by (simp add: sgn_if)
  then obtain sg :: int where sg: "sgn x = of_int sg" ..
  have "x = of_int (sg * m * 2 ^ nat (e + 1074)) * 2 powi (- 1074)"
    by (subst x) (simp add: sg p del: power_int_numeral)
  then show ?thesis ..
qed

lemma round_double_pos:
  assumes "0 < d" and "d = of_int j * 2 powi (- 1074)"
  shows "round_double d = PInf \<or> (\<exists>v. round_double d = Fin v \<and> 0 < v)"
proof -
  define e where "e = max (ilog2 d - 52) (- 1074)"
  have "of_int 1 \<le> d / 2 powi e"
  proof (cases "- 1074 \<le> ilog2 d - 52")
    case True
    then have e: "e = ilog2 d - 52" by (simp add: e_def)
    have "(2::rat) powi ilog2 d = 2 powi 52 * 2 powi e"
      using power_int_add [of "2::rat" 52 e] by (simp add: e)
    with ilog2_bounds(1) [OF assms(1)] have "2 powi 52 * 2 powi e \<le> d" by simp
    then have "(2::rat) powi 52 \<le> d / 2 powi e" by (simp add: pos_le_divide_eq)
    moreover have "(1::rat) \<le> 2 powi 52" by simp
    ultimately have "1 \<le> d / 2 powi e" by linarith
    then show ?thesis by (simp only: of_int_1)
  next
    case False
    then have e: "e = - 1074" by (simp add: e_def)
    have pos: "(0::rat) < 2 powi (- 1074)" by (rule zero_less_power_int) simp
    from assms pos have "(0::rat) < of_int j"
      by (simp only: zero_less_mult_iff) auto
    then have "1 \<le> j" by simp
    then have "(of_int 1 :: rat) \<le> of_int j" by (simp only: of_int_le_iff)
    moreover have "d / 2 powi e = of_int j"
      using pos by (simp only: e assms(2)) simp
    ultimately show ?thesis by simp
  qed
  from round_double_lower [OF assms(1) e_def this]
  have "round_double d = PInf \<or> (\<exists>v. round_double d = Fin v \<and> 2 powi e \<le> v)"
    by simp
  moreover have "(0::rat) < 2 powi e" by (rule zero_less_power_int) simp
  ultimately show ?thesis by (metis less_le_trans)
qed

lemma round_double_sign:
  assumes "round_double x = Fin x" and "round_double y = Fin y"
  shows "js_lt (Fin 0) (round_double (x - y)) \<longleftrightarrow> y < x"
proof -
  from is_double_grid [OF assms(1)] is_double_grid [OF assms(2)]
  obtain j k :: int where "x = of_int j * 2 powi (- 1074)" "y = of_int k * 2 powi (- 1074)"
    by blast
  then have grid: "x - y = of_int (j - k) * 2 powi (- 1074)"
    and grid': "y - x = of_int (k - j) * 2 powi (- 1074)"
    by (simp_all add: algebra_simps del: power_int_numeral)
  consider "y < x" | "x = y" | "x < y" by linarith
  then show ?thesis
  proof cases
    case 1
    then have "0 < x - y" by simp
    from round_double_pos [OF this grid] 1 show ?thesis by auto
  next
    case 2
    then show ?thesis by (simp add: round_double_def)
  next
    case 3
    then have "0 < y - x" by simp
    from round_double_pos [OF this grid'] have
      "round_double (y - x) = PInf \<or> (\<exists>v. round_double (y - x) = Fin v \<and> 0 < v)" .
    moreover have "round_double (x - y) = js_neg (round_double (y - x))"
      using round_double_minus [of "y - x"] by simp
    ultimately show ?thesis using 3 by auto
  qed
qed

lemma js_sub_sign:
  assumes "a \<noteq> NaN" and "b \<noteq> NaN" and "is_double a" and "is_double b"
  shows "js_gt (js_sub a b) (Fin 0) \<longleftrightarrow> js_lt b a"
proof (cases a)
  case (Fin x)
  show ?thesis
  proof (cases b)
    case (Fin y)
    with \<open>a = Fin x\<close> assms(3,4) round_double_sign [of x y] show ?thesis
      by (simp add: js_gt_def js_sub_def)
  qed (use assms \<open>a = Fin x\<close> in \<open>simp_all add: js_gt_def js_sub_def\<close>)
qed (use assms in \<open>cases b; simp add: js_gt_def js_sub_def\<close>)+

lemma js_le_trans: "js_le a b \<Longrightarrow> js_le b c \<Longrightarrow> js_le a c"
  by (cases a; cases b; cases c) (simp_all add: js_le_def)

lemma js_le_after:
  assumes "a \<noteq> NaN" and "b \<noteq> NaN" and "js_lt b a"
  shows "js_le b a"
  using assms by (cases a; cases b) (simp_all add: js_le_def)

lemma js_le_before:
  assumes "a \<noteq> NaN" and "b \<noteq> NaN" and "\<not> js_lt b a"
  shows "js_le a b"
  using assms by (simp add: js_le_def)

lemma sorted_by_key:
  assumes keys: "\<forall>p \<in> set xs. key p \<noteq> NaN \<and> is_double (key p)"
    and cmp: "\<And>a b. cmp a b = js_sub (key a) (key b)"
  shows "sorted_wrt (\<lambda>a b. js_le (key a) (key b)) (Array_sort cmp xs)"
proof (rule sorted_wrt_Array_sort [where S = "set xs"])
  show "set xs \<subseteq> set xs" ..
next
  fix a b assume a: "a \<in> set xs" and b: "b \<in> set xs" and gt: "js_gt (cmp a b) (Fin 0)"
  from a b keys have k: "key a \<noteq> NaN" "key b \<noteq> NaN" "is_double (key a)" "is_double (key b)"
    by blast+
  from gt have "js_lt (key b) (key a)"
    unfolding cmp js_sub_sign [OF k] .
  with k show "js_le (key b) (key a)" by (intro js_le_after)
next
  fix a b assume a: "a \<in> set xs" and b: "b \<in> set xs" and ngt: "\<not> js_gt (cmp a b) (Fin 0)"
  from a b keys have k: "key a \<noteq> NaN" "key b \<noteq> NaN" "is_double (key a)" "is_double (key b)"
    by blast+
  from ngt have "\<not> js_lt (key b) (key a)"
    unfolding cmp js_sub_sign [OF k] .
  with k show "js_le (key a) (key b)" by (intro js_le_before)
next
  fix a b c assume "js_le (key a) (key b)" "js_le (key b) (key c)"
  then show "js_le (key a) (key c)" by (rule js_le_trans)
qed

lemma sorted_by_key_desc:
  assumes keys: "\<forall>p \<in> set xs. key p \<noteq> NaN \<and> is_double (key p)"
    and cmp: "\<And>a b. cmp a b = js_sub (key b) (key a)"
  shows "sorted_wrt (\<lambda>a b. js_le (key b) (key a)) (Array_sort cmp xs)"
proof (rule sorted_wrt_Array_sort [where S = "set xs"])
  show "set xs \<subseteq> set xs" ..
next
  fix a b assume a: "a \<in> set xs" and b: "b \<in> set xs" and gt: "js_gt (cmp a b) (Fin 0)"
  from a b keys have k: "key b \<noteq> NaN" "key a \<noteq> NaN" "is_double (key b)" "is_double (key a)"
    by blast+
  from gt have "js_lt (key a) (key b)"
    unfolding cmp js_sub_sign [OF k] .
  with k show "js_le (key a) (key b)" by (intro js_le_after)
next
  fix a b assume a: "a \<in> set xs" and b: "b \<in> set xs" and ngt: "\<not> js_gt (cmp a b) (Fin 0)"
  from a b keys have k: "key b \<noteq> NaN" "key a \<noteq> NaN" "is_double (key b)" "is_double (key a)"
    by blast+
  from ngt have "\<not> js_lt (key a) (key b)"
    unfolding cmp js_sub_sign [OF k] .
  with k show "js_le (key b) (key a)" by (intro js_le_before)
next
  fix a b c assume "js_le (key b) (key a)" "js_le (key c) (key b)"
  then show "js_le (key c) (key a)" by (rule js_le_trans [rotated])
qed

lemma Date_getTime_int:
  fixes n :: int
  assumes "\<bar>n\<bar> \<le> 8640000000000000"
  shows "Date_getTime (Fin (of_int n)) = Fin (of_int n)"
proof -
  from assms have "(of_int \<bar>n\<bar> :: rat) \<le> of_int 8640000000000000"
    by (simp only: of_int_le_iff)
  then have "\<not> (8640000000000000 < \<bar>rat_of_int n\<bar>)" by simp
  then show ?thesis by simp
qed

lemma is_double_int:
  fixes n :: int
  assumes "\<bar>n\<bar> \<le> 8640000000000000"
  shows "is_double (Fin (of_int n))"
proof -
  from assms have "\<bar>n\<bar> \<le> 2 ^ 53" by simp
  then show ?thesis by (simp add: round_double_of_int)
qed

lemma literal_7_99: "literal (799 / 100) = Fin (4497970127836283 / 562949953421312)"
  unfolding literal_def
  by (rule round_double_normal [where k = 2 and m = 8995940255672566, THEN trans]) simp_all

lemma literal_8_99: "literal (899 / 100) = Fin (5060920081257595 / 562949953421312)"
  unfolding literal_def
  by (rule round_double_normal [where k = 3 and m = 5060920081257595, THEN trans]) simp_all

lemma round_6_99:
  "round_double (3935020174414971 / 562949953421312) = Fin (3935020174414971 / 562949953421312)"
  by (rule round_double_normal [where k = 2 and m = 7870040348829942, THEN trans]) simp_all

lemma round_7_99:
  "round_double (4497970127836283 / 562949953421312) = Fin (4497970127836283 / 562949953421312)"
  by (rule round_double_normal [where k = 2 and m = 8995940255672566, THEN trans]) simp_all

lemma round_8_99:
  "round_double (5060920081257595 / 562949953421312) = Fin (5060920081257595 / 562949953421312)"
  by (rule round_double_normal [where k = 3 and m = 5060920081257595, THEN trans]) simp_all

lemma products_prices: "\<forall>p \<in> set products. price_p p \<noteq> NaN \<and> is_double (price_p p)"
  by (simp add: products_def literal_6_99 literal_7_99 literal_8_99 round_6_99 round_7_99
      round_8_99)

lemma products_ids:
  "\<forall>p \<in> set products. \<exists>n::int. \<bar>n\<bar> \<le> 8640000000000000 \<and> id_p p = Fin (of_int n)"
proof -
  have "\<exists>n::int. \<bar>n\<bar> \<le> 8640000000000000 \<and> Fin 1 = Fin (of_int n)"
    by (rule exI [of _ 1]) simp
  moreover have "\<exists>n::int. \<bar>n\<bar> \<le> 8640000000000000 \<and> Fin 2 = Fin (of_int n)"
    by (rule exI [of _ 2]) simp
  moreover have "\<exists>n::int. \<bar>n\<bar> \<le> 8640000000000000 \<and> Fin 3 = Fin (of_int n)"
    by (rule exI [of _ 3]) simp
  ultimately show ?thesis by (simp add: products_def)
qed

text \<open>
  C9. The page's list is a function of the catalog, the filter tag and the sort key. A
  product passes the filter iff the tag is \<^verbatim>\<open>"all"\<close> or the tag, compared without
  regard to letter case, is a substring of one of the product's feature strings or of
  the \<^verbatim>\<open>features\<close> string of its specifications. The list holds the passing products;
  for prices that are numbers other than \<open>NaN\<close> it is sorted by price upwards for
  \<^verbatim>\<open>"price-low"\<close> and downwards for \<^verbatim>\<open>"price-high"\<close>; for identifiers that are time
  values it is sorted by identifier downwards for \<^verbatim>\<open>"newest"\<close>; for \<^verbatim>\<open>"featured"\<close> it
  is in catalog order.
\<close>

theorem shop_filter_sort:
  assumes "filterBy \<in> FilterOption"
    and "\<forall>p \<in> set catalog. price_p p \<noteq> NaN \<and> is_double (price_p p)"
    and "\<forall>p \<in> set catalog. \<exists>n::int. \<bar>n\<bar> \<le> 8640000000000000 \<and> id_p p = Fin (of_int n)"
  shows "(passes_filter filterBy product \<longleftrightarrow>
            filterBy = ''all''
            \<or> (\<exists>feature \<in> set (features product). \<exists>pre post.
                  toLowerCase feature = pre @ toLowerCase filterBy @ post)
            \<or> (\<exists>pre post. toLowerCase (features_s (specifications product))
                  = pre @ toLowerCase filterBy @ post))
         \<and> mset (sortedProducts catalog filterBy sortBy)
             = mset (filter (passes_filter filterBy) catalog)
         \<and> (sortBy = ''price-low'' \<longrightarrow>
              sorted_wrt (\<lambda>a b. js_le (price_p a) (price_p b))
                (sortedProducts catalog filterBy sortBy))
         \<and> (sortBy = ''price-high'' \<longrightarrow>
              sorted_wrt (\<lambda>a b. js_le (price_p b) (price_p a))
                (sortedProducts catalog filterBy sortBy))
         \<and> (sortBy = ''newest'' \<longrightarrow>
              sorted_wrt (\<lambda>a b. js_le (id_p b) (id_p a))
                (sortedProducts catalog filterBy sortBy))
         \<and> (sortBy = ''featured'' \<longrightarrow>
              sortedProducts catalog filterBy sortBy = filter (passes_filter filterBy) catalog)"
proof (intro conjI impI)
  let ?xs = "filteredProducts catalog filterBy"
  have sub: "set ?xs \<subseteq> set catalog"
    by (simp add: filteredProducts_def)
  from assms(2) sub have prices: "\<forall>p \<in> set ?xs. price_p p \<noteq> NaN \<and> is_double (price_p p)"
    by blast
  from assms(3) sub
  have ids: "\<forall>p \<in> set ?xs. \<exists>n::int. \<bar>n\<bar> \<le> 8640000000000000 \<and> id_p p = Fin (of_int n)"
    by blast
  have low: "toLowerCase filterBy = filterBy"
    using assms(1) by (rule FilterOption_lower)
  show "passes_filter filterBy product \<longleftrightarrow>
      filterBy = ''all''
      \<or> (\<exists>feature \<in> set (features product). \<exists>pre post.
            toLowerCase feature = pre @ toLowerCase filterBy @ post)
      \<or> (\<exists>pre post. toLowerCase (features_s (specifications product))
            = pre @ toLowerCase filterBy @ post)"
    unfolding low by (simp add: passes_filter_def list_ex_iff includes_str_iff)
  show "mset (sortedProducts catalog filterBy sortBy)
      = mset (filter (passes_filter filterBy) catalog)"
    by (simp add: sortedProducts_def mset_Array_sort filteredProducts_def)
  {
    assume s: "sortBy = ''price-low''"
    have "compare_products sortBy a b = js_sub (price_p a) (price_p b)" for a b
      by (simp add: compare_products_def s)
    with prices show "sorted_wrt (\<lambda>a b. js_le (price_p a) (price_p b))
        (sortedProducts catalog filterBy sortBy)"
      unfolding sortedProducts_def by (rule sorted_by_key)
  }
  {
    assume s: "sortBy = ''price-high''"
    have "compare_products sortBy a b = js_sub (price_p b) (price_p a)" for a b
      by (simp add: compare_products_def s)
    with prices show "sorted_wrt (\<lambda>a b. js_le (price_p b) (price_p a))
        (sortedProducts catalog filterBy sortBy)"
      unfolding sortedProducts_def by (rule sorted_by_key_desc)
  }
  {
    assume s: "sortBy = ''newest''"
    let ?key = "\<lambda>p. Date_getTime (id_p p)"
    have time: "?key p = id_p p" if "p \<in> set ?xs" for p
      using ids that Date_getTime_int by fastforce
    have keys: "\<forall>p \<in> set ?xs. ?key p \<noteq> NaN \<and> is_double (?key p)"
    proof
      fix p assume p: "p \<in> set ?xs"
      with ids obtain n :: int where "\<bar>n\<bar> \<le> 8640000000000000" "id_p p = Fin (of_int n)"
        by blast
      with time [OF p] is_double_int [of n] show "?key p \<noteq> NaN \<and> is_double (?key p)"
        by simp
    qed
    have "compare_products sortBy a b = js_sub (?key b) (?key a)" for a b
      by (simp add: compare_products_def s)
    with keys have sorted: "sorted_wrt (\<lambda>a b. js_le (?key b) (?key a))
        (Array_sort (compare_products sortBy) ?xs)"
      by (rule sorted_by_key_desc)
    have mem: "set (Array_sort (compare_products sortBy) ?xs) = set ?xs"
      by (rule set_Array_sort)
    have "sorted_wrt (\<lambda>a b. js_le (id_p b) (id_p a)) (Array_sort (compare_products sortBy) ?xs)"
    proof (rule sorted_wrt_mono_rel [OF _ sorted])
      fix a b
      assume "a \<in> set (Array_sort (compare_products sortBy) ?xs)"
        and "b \<in> set (Array_sort (compare_products sortBy) ?xs)"
        and "js_le (?key b) (?key a)"
      then show "js_le (id_p b) (id_p a)"
        by (simp add: mem time)
    qed
    then show "sorted_wrt (\<lambda>a b. js_le (id_p b) (id_p a))
        (sortedProducts catalog filterBy sortBy)"
      by (simp only: sortedProducts_def)
  }
  {
    assume s: "sortBy = ''featured''"
    have "\<forall>a b. \<not> js_gt (compare_products sortBy a b) (Fin 0)"
      by (simp add: compare_products_def s js_gt_def)
    then show "sortedProducts catalog filterBy sortBy = filter (passes_filter filterBy) catalog"
      by (simp add: sortedProducts_def Array_sort_zero filteredProducts_def)
  }
qed


text \<open>
  The catalog of the shop, filtered by \<^verbatim>\<open>"overnight"\<close> and sorted by falling price, and
  filtered by \<^verbatim>\<open>"maxi"\<close> in catalog order.
\<close>

theorem shop_filter_sort_witness:
  "sorted_wrt (\<lambda>a b. js_le (price_p b) (price_p a))
     (sortedProducts products ''overnight'' ''price-high'')
   \<and> mset (sortedProducts products ''overnight'' ''price-high'')
       = mset (filter (passes_filter ''overnight'') products)
   \<and> sortedProducts products ''maxi'' ''featured'' = filter (passes_filter ''maxi'') products
   \<and> map name_p (sortedProducts products ''overnight'' ''price-high'')
       = [''Overnight 425mm'', ''Maxi Pads 350mm'']"
proof -
  have o: "''overnight'' \<in> FilterOption" and m: "''maxi'' \<in> FilterOption"
    by (simp_all add: FilterOption_def)
  note high = shop_filter_sort [OF o products_prices products_ids, where sortBy = "''price-high''"]
  note feat = shop_filter_sort [OF m products_prices products_ids, where sortBy = "''featured''"]
  have "map name_p (sortedProducts products ''overnight'' ''price-high'')
      = [''Overnight 425mm'', ''Maxi Pads 350mm'']"
    by code_simp
  with high feat show ?thesis by simp
qed

end
